theory Spec2Isabelle
  imports Main "HOL-Library.Sublist"
begin

section \<open>Text written to the console\<close>

text \<open>
  A C++ \<open>std::string\<close> is a sequence of bytes, here a \<open>string\<close>. The source files are
  UTF-8, so every symbol outside ASCII that a string literal of the program holds is the byte
  sequence below.
\<close>

datatype glyph =
  Rocket | Books | OpenBook | Door | LightBulb | DirectHit | Wrench | WarningSign | VS16
  | TestTube | Arrows | CrossMark | CheckMark | PartyPopper | Gear | Memo | Bullet
  | CreditCard | MoneyBag | BitcoinSign | Briefcase

fun utf8 :: "glyph \<Rightarrow> string" where
  "utf8 Rocket = [CHR 0xF0, CHR 0x9F, CHR 0x9A, CHR 0x80]"
| "utf8 Books = [CHR 0xF0, CHR 0x9F, CHR 0x93, CHR 0x9A]"
| "utf8 OpenBook = [CHR 0xF0, CHR 0x9F, CHR 0x93, CHR 0x96]"
| "utf8 Door = [CHR 0xF0, CHR 0x9F, CHR 0x9A, CHR 0xAA]"
| "utf8 LightBulb = [CHR 0xF0, CHR 0x9F, CHR 0x92, CHR 0xA1]"
| "utf8 DirectHit = [CHR 0xF0, CHR 0x9F, CHR 0x8E, CHR 0xAF]"
| "utf8 Wrench = [CHR 0xF0, CHR 0x9F, CHR 0x94, CHR 0xA7]"
| "utf8 WarningSign = [CHR 0xE2, CHR 0x9A, CHR 0xA0]"
| "utf8 VS16 = [CHR 0xEF, CHR 0xB8, CHR 0x8F]"
| "utf8 TestTube = [CHR 0xF0, CHR 0x9F, CHR 0xA7, CHR 0xAA]"
| "utf8 Arrows = [CHR 0xF0, CHR 0x9F, CHR 0x94, CHR 0x84]"
| "utf8 CrossMark = [CHR 0xE2, CHR 0x9D, CHR 0x8C]"
| "utf8 CheckMark = [CHR 0xE2, CHR 0x9C, CHR 0x85]"
| "utf8 PartyPopper = [CHR 0xF0, CHR 0x9F, CHR 0x8E, CHR 0x89]"
| "utf8 Gear = [CHR 0xE2, CHR 0x9A, CHR 0x99]"
| "utf8 Memo = [CHR 0xF0, CHR 0x9F, CHR 0x93, CHR 0x9D]"
| "utf8 Bullet = [CHR 0xE2, CHR 0x80, CHR 0xA2]"
| "utf8 CreditCard = [CHR 0xF0, CHR 0x9F, CHR 0x92, CHR 0xB3]"
| "utf8 MoneyBag = [CHR 0xF0, CHR 0x9F, CHR 0x92, CHR 0xB0]"
| "utf8 BitcoinSign = [CHR 0xE2, CHR 0x82, CHR 0xBF]"
| "utf8 Briefcase = [CHR 0xF0, CHR 0x9F, CHR 0x92, CHR 0xBC]"

text \<open>The decimal text that \<open>operator<<\<close> writes for an unsigned and for a signed integer.\<close>

fun show_nat :: "nat \<Rightarrow> string" where
  "show_nat n =
     (if n < 10 then [char_of (48 + n)]
      else show_nat (n div 10) @ [char_of (48 + n mod 10)])"

declare show_nat.simps [simp del]

definition show_int :: "int \<Rightarrow> string" where
  "show_int i = (if i < 0 then ''-'' @ show_nat (nat (- i)) else show_nat (nat i))"

section \<open>Failures\<close>

text \<open>
  The only exception class the sources throw is \<open>std::invalid_argument\<close>; \<open>exception\<close> stands
  for any other class derived from \<open>std::exception\<close>. Both carry the text \<open>what()\<close> returns.
  Going through a null \<open>std::unique_ptr\<close>, or through a reference to storage that holds no
  constructed object, is undefined behaviour in C++; the model makes each a failure of its
  own, which no handler catches.
\<close>

datatype std_exception = invalid_argument string | exception string

fun what :: "std_exception \<Rightarrow> string" where
  "what (invalid_argument s) = s"
| "what (exception s) = s"

datatype fault = Throw std_exception | NullDereference | DanglingReference

definition and_then :: "fault + 'a \<Rightarrow> ('a \<Rightarrow> fault + 'b) \<Rightarrow> fault + 'b" where
  "and_then r f = (case r of Inl e \<Rightarrow> Inl e | Inr x \<Rightarrow> f x)"

section \<open>builder.hpp\<close>

record HttpRequest =
  method_m :: string
  url_m :: string
  body_m :: string
  headers_m :: "(string \<times> string) list"
  timeout_m :: int

text \<open>
  Isabelle reserves names that end in an underscore, so a data member \<open>x_\<close> of the source
  is the field \<open>x_m\<close> here. The constructor is \<open>HttpRequest() : method_("GET"), timeout_(30)\<close>.
\<close>

definition HttpRequest_new :: HttpRequest where
  "HttpRequest_new =
     \<lparr>method_m = ''GET'', url_m = [], body_m = [], headers_m = [], timeout_m = 30\<rparr>"

definition setMethod :: "string \<Rightarrow> HttpRequest \<Rightarrow> HttpRequest" where
  "setMethod m r = r\<lparr>method_m := m\<rparr>"

definition setUrl :: "string \<Rightarrow> HttpRequest \<Rightarrow> HttpRequest" where
  "setUrl u r = r\<lparr>url_m := u\<rparr>"

definition setBody :: "string \<Rightarrow> HttpRequest \<Rightarrow> HttpRequest" where
  "setBody b r = r\<lparr>body_m := b\<rparr>"

definition addHeader :: "string \<Rightarrow> string \<Rightarrow> HttpRequest \<Rightarrow> HttpRequest" where
  "addHeader k v r = r\<lparr>headers_m := headers_m r @ [(k, v)]\<rparr>"

definition setTimeout :: "int \<Rightarrow> HttpRequest \<Rightarrow> HttpRequest" where
  "setTimeout t r = r\<lparr>timeout_m := t\<rparr>"

definition header_line :: "string \<times> string \<Rightarrow> string" where
  "header_line h = ''    '' @ fst h @ '': '' @ snd h @ ''\<newline>''"

definition toString :: "HttpRequest \<Rightarrow> string" where
  "toString r =
     ''HTTP Request:\<newline>''
     @ ''  Method: '' @ method_m r @ ''\<newline>''
     @ ''  URL: '' @ url_m r @ ''\<newline>''
     @ ''  Timeout: '' @ show_int (timeout_m r) @ ''s\<newline>''
     @ ''  Headers:\<newline>''
     @ concat (map header_line (headers_m r))
     @ (if body_m r \<noteq> [] then ''  Body: '' @ body_m r @ ''\<newline>'' else [])"

text \<open>
  \<open>HttpRequestBuilder\<close> owns its request through a \<open>std::unique_ptr\<close>: \<open>Some r\<close> when the
  pointer holds a request, \<open>None\<close> when it is null. Every setter goes through the pointer
  (\<open>request_->...\<close>) and returns the builder itself.
\<close>

record HttpRequestBuilder =
  request_m :: "HttpRequest option"

definition HttpRequestBuilder_new :: HttpRequestBuilder where
  "HttpRequestBuilder_new = \<lparr>request_m = Some HttpRequest_new\<rparr>"

definition through ::
  "(HttpRequest \<Rightarrow> HttpRequest) \<Rightarrow> HttpRequestBuilder \<Rightarrow> fault + HttpRequestBuilder" where
  "through f b =
     (case request_m b of
        None \<Rightarrow> Inl NullDereference
      | Some r \<Rightarrow> Inr (b\<lparr>request_m := Some (f r)\<rparr>))"

definition "method" :: "string \<Rightarrow> HttpRequestBuilder \<Rightarrow> fault + HttpRequestBuilder" where
  "method m b = through (setMethod m) b"

definition url :: "string \<Rightarrow> HttpRequestBuilder \<Rightarrow> fault + HttpRequestBuilder" where
  "url u b = through (setUrl u) b"

definition body :: "string \<Rightarrow> HttpRequestBuilder \<Rightarrow> fault + HttpRequestBuilder" where
  "body t b = through (setBody t) b"

definition header :: "string \<Rightarrow> string \<Rightarrow> HttpRequestBuilder \<Rightarrow> fault + HttpRequestBuilder" where
  "header k v b = through (addHeader k v) b"

definition timeout :: "int \<Rightarrow> HttpRequestBuilder \<Rightarrow> fault + HttpRequestBuilder" where
  "timeout t b = through (setTimeout t) b"

text \<open>
  \<open>build()\<close> is \<open>return std::move(request_);\<close>: the caller gets the pointer (null or not)
  and the builder's member is left null.
\<close>

definition build :: "HttpRequestBuilder \<Rightarrow> HttpRequest option \<times> HttpRequestBuilder" where
  "build b = (request_m b, b\<lparr>request_m := None\<rparr>)"

text \<open>
  A fluent chain \<open>HttpRequestBuilder().s1.s2. ... .build()\<close> on a temporary builder, and
  \<open>p->toString()\<close> on the pointer it returns.
\<close>

definition fluent ::
  "(HttpRequestBuilder \<Rightarrow> fault + HttpRequestBuilder) list \<Rightarrow> fault + HttpRequest option" where
  "fluent setters =
     and_then (foldl and_then (Inr HttpRequestBuilder_new) setters) (\<lambda>b. Inr (fst (build b)))"

definition arrow_toString :: "HttpRequest option \<Rightarrow> fault + string" where
  "arrow_toString p = (case p of None \<Rightarrow> Inl NullDereference | Some r \<Rightarrow> Inr (toString r))"

section \<open>factory.hpp\<close>

text \<open>
  The three concrete products have no data members: a \<open>std::unique_ptr<PaymentProcessor>\<close>
  that \<open>createProcessor\<close> returns is determined by the dynamic type of its target.
\<close>

datatype PaymentProcessor = CreditCardProcessor | PayPalProcessor | BitcoinProcessor

fun getProcessorName :: "PaymentProcessor \<Rightarrow> string" where
  "getProcessorName CreditCardProcessor = ''Credit Card Processor''"
| "getProcessorName PayPalProcessor = ''PayPal Processor''"
| "getProcessorName BitcoinProcessor = ''Bitcoin Processor''"

definition createProcessor :: "string \<Rightarrow> fault + PaymentProcessor" where
  "createProcessor type =
     (if type = ''credit_card'' then Inr CreditCardProcessor
      else if type = ''paypal'' then Inr PayPalProcessor
      else if type = ''bitcoin'' then Inr BitcoinProcessor
      else Inl (Throw (invalid_argument (''Unknown payment processor type: '' @ type))))"

definition getAvailableProcessors :: "string list" where
  "getAvailableProcessors = [''credit_card'', ''paypal'', ''bitcoin'']"

section \<open>The console\<close>

text \<open>
  \<open>std::cin\<close> is the characters not yet extracted together with the two state flags the
  program can see. No read error of the device is modelled, so \<open>badbit\<close> is never set. The
  extraction rules are those of the C++ standard library in the "C" locale.
\<close>

record istream =
  buf :: string
  failbit :: bool
  eofbit :: bool

definition good :: "istream \<Rightarrow> bool" where
  "good s = (\<not> failbit s \<and> \<not> eofbit s)"

definition isspace :: "char \<Rightarrow> bool" where
  "isspace c = (c \<in> set [CHR '' '', CHR 0x09, CHR 0x0A, CHR 0x0B, CHR 0x0C, CHR 0x0D])"

definition isdigit :: "char \<Rightarrow> bool" where
  "isdigit c = (c \<in> set ''0123456789'')"

text \<open>
  The sentry every extraction starts with: a stream that is not good gets \<open>failbit\<close> and
  nothing is read; a formatted extraction then skips white space, and fails with
  \<open>eofbit\<close> and \<open>failbit\<close> when nothing else is left.
\<close>

definition sentry :: "bool \<Rightarrow> istream \<Rightarrow> bool \<times> istream" where
  "sentry noskipws s =
     (if \<not> good s then (False, s\<lparr>failbit := True\<rparr>)
      else if noskipws then (True, s)
      else (case dropWhile isspace (buf s) of
              [] \<Rightarrow> (False, s\<lparr>buf := [], failbit := True, eofbit := True\<rparr>)
            | c # cs \<Rightarrow> (True, s\<lparr>buf := c # cs\<rparr>)))"

definition digits_value :: "string \<Rightarrow> nat" where
  "digits_value ds = foldl (\<lambda>a c. 10 * a + (of_char c - 48)) 0 ds"

text \<open>
  \<open>std::cin >> choice\<close> for an \<open>int\<close>: an optional sign, then decimal digits. \<open>None\<close> is a
  failed extraction (\<open>failbit\<close> set): no digit, or a value a 32-bit \<open>int\<close> cannot hold. The
  value the library stores in \<open>choice\<close> on a failure is never read by the program.
\<close>

definition extract_int :: "istream \<Rightarrow> int option \<times> istream" where
  "extract_int s0 =
     (case sentry False s0 of
        (False, s) \<Rightarrow> (None, s)
      | (True, s) \<Rightarrow>
          (let (neg, r1) =
                 (case buf s of
                    [] \<Rightarrow> (False, [])
                  | c # cs \<Rightarrow>
                      if c = CHR ''-'' then (True, cs)
                      else if c = CHR ''+'' then (False, cs)
                      else (False, c # cs));
               ds = takeWhile isdigit r1;
               r2 = dropWhile isdigit r1;
               s' = s\<lparr>buf := r2, eofbit := (r2 = [])\<rparr>;
               v = (if neg then - int (digits_value ds) else int (digits_value ds))
           in if ds = [] \<or> v < - 2147483648 \<or> 2147483647 < v
              then (None, s'\<lparr>failbit := True\<rparr>)
              else (Some v, s')))"

text \<open>
  \<open>std::cin >> continueChoice\<close> for a \<open>std::string\<close>: the characters up to the next white
  space. \<open>None\<close> is a failed sentry, which leaves the string as it was.
\<close>

definition extract_string :: "istream \<Rightarrow> string option \<times> istream" where
  "extract_string s0 =
     (case sentry False s0 of
        (False, s) \<Rightarrow> (None, s)
      | (True, s) \<Rightarrow>
          (let tok = takeWhile (\<lambda>c. \<not> isspace c) (buf s);
               r = dropWhile (\<lambda>c. \<not> isspace c) (buf s)
           in (Some tok, s\<lparr>buf := r, eofbit := (r = [])\<rparr>)))"

definition clear :: "istream \<Rightarrow> istream" where
  "clear s = s\<lparr>failbit := False, eofbit := False\<rparr>"

text \<open>\<open>ignore(std::numeric_limits<std::streamsize>::max(), '\n')\<close>: no limit on the count.\<close>

definition ignore_line :: "istream \<Rightarrow> istream" where
  "ignore_line s0 =
     (case sentry True s0 of
        (False, s) \<Rightarrow> s
      | (True, s) \<Rightarrow>
          (case dropWhile (\<lambda>c. c \<noteq> CHR 0x0A) (buf s) of
             [] \<Rightarrow> s\<lparr>buf := [], eofbit := True\<rparr>
           | c # cs \<Rightarrow> s\<lparr>buf := cs\<rparr>))"

text \<open>\<open>std::cin.get()\<close>, whose result the program drops.\<close>

definition get :: "istream \<Rightarrow> istream" where
  "get s0 =
     (case sentry True s0 of
        (False, s) \<Rightarrow> s
      | (True, s) \<Rightarrow>
          (case buf s of
             [] \<Rightarrow> s\<lparr>failbit := True, eofbit := True\<rparr>
           | c # cs \<Rightarrow> s\<lparr>buf := cs\<rparr>))"

section \<open>The state of the process\<close>

datatype demo =
  Builder | Factory | Singleton | Observer | Strategy | Command | Decorator | Adapter | Facade
  | TemplateMethod | Proxy | Visitor | Memento | ChainOfResponsibility | State

type_synonym addr = nat

record ConfigurationManager =
  appName_m :: string
  version_m :: string
  debugMode_m :: bool

text \<open>
  \<open>memory\<close> holds the objects of static storage duration whose constructor has run, by
  address. \<open>constructed\<close> and \<open>entered\<close> are bookkeeping of the model, not data of the
  program: how often the constructor of \<open>ConfigurationManager\<close> has run, and the demo
  procedures called so far, in call order.
\<close>

record world =
  cin :: istream
  cout :: string
  cerr :: string
  memory :: "addr \<rightharpoonup> ConfigurationManager"
  constructed :: nat
  entered :: "demo list"

definition start :: "string \<Rightarrow> world" where
  "start input =
     \<lparr>cin = \<lparr>buf = input, failbit = False, eofbit = False\<rparr>, cout = [], cerr = [],
      memory = Map.empty, constructed = 0, entered = []\<rparr>"

text \<open>
  What the sources leave to their surroundings. \<open>main.cpp\<close> includes twelve headers,
  \<open>observer.hpp\<close> to \<open>state.hpp\<close>, that are not among the sources: what the demo procedure of
  each prints, and the exception it ends with if any, is \<open>absent\<close>. The address the
  implementation gives the function-local static of \<open>getInstance\<close> is \<open>instance_at\<close>, and
  \<open>show_addr\<close> is the text \<open>operator<<\<close> writes for a pointer.
\<close>

record env =
  absent :: "demo \<Rightarrow> string \<times> std_exception option"
  instance_at :: addr
  show_addr :: "addr \<Rightarrow> string"

text \<open>
  A procedure either returns or is left by a failure; both carry the state reached.
  \<open>block\<close> runs statements in order and stops at the first failure.
\<close>

datatype outcome = Returns world | Raises fault world

fun final :: "outcome \<Rightarrow> world" where
  "final (Returns w) = w"
| "final (Raises f w) = w"

fun block :: "(world \<Rightarrow> outcome) list \<Rightarrow> world \<Rightarrow> outcome" where
  "block [] w = Returns w"
| "block (s # ss) w = (case s w of Returns w' \<Rightarrow> block ss w' | Raises f w' \<Rightarrow> Raises f w')"

definition print :: "string \<Rightarrow> world \<Rightarrow> world" where
  "print t w = w\<lparr>cout := cout w @ t\<rparr>"

definition prints :: "string list \<Rightarrow> world \<Rightarrow> world" where
  "prints ts w = foldl (\<lambda>w t. print t w) w ts"

definition say :: "string \<Rightarrow> world \<Rightarrow> outcome" where
  "say t w = Returns (print t w)"

definition says :: "string list \<Rightarrow> world \<Rightarrow> outcome" where
  "says ts w = Returns (prints ts w)"

definition say_or_raise :: "fault + string \<Rightarrow> world \<Rightarrow> outcome" where
  "say_or_raise r w = (case r of Inl f \<Rightarrow> Raises f w | Inr t \<Rightarrow> say t w)"

definition enter :: "demo \<Rightarrow> world \<Rightarrow> outcome" where
  "enter d w = Returns (w\<lparr>entered := entered w @ [d]\<rparr>)"

section \<open>The demo of builder.hpp\<close>

definition request1 :: "fault + HttpRequest option" where
  "request1 =
     fluent
       [method ''POST'',
        url ''https://api.example.com/users'',
        header ''Content-Type'' ''application/json'',
        header ''Authorization'' ''Bearer token123'',
        body (''{'' @ [CHR 0x22] @ ''name'' @ [CHR 0x22] @ '':'' @ [CHR 0x22] @ ''John''
              @ [CHR 0x22] @ '','' @ [CHR 0x22] @ ''email'' @ [CHR 0x22] @ '':'' @ [CHR 0x22]
              @ ''john@example.com'' @ [CHR 0x22] @ ''}''),
        timeout 60]"

definition request2 :: "fault + HttpRequest option" where
  "request2 =
     fluent
       [method ''GET'',
        url ''https://api.example.com/users/123'',
        header ''Accept'' ''application/json'']"

definition demoBuilder :: "world \<Rightarrow> outcome" where
  "demoBuilder =
     block
       [enter Builder,
        say ''=== BUILDER PATTERN DEMO ===\<newline>\<newline>'',
        say (utf8 Memo @ '' Building a complex HTTP request with fluent interface:\<newline>\<newline>''),
        say_or_raise (and_then (and_then request1 arrow_toString) (\<lambda>t. Inr (t @ ''\<newline>''))),
        say (utf8 CheckMark @ '' Built complex object with fluent interface!\<newline>\<newline>''),
        say (utf8 Memo @ '' Building a simple GET request:\<newline>\<newline>''),
        say_or_raise (and_then (and_then request2 arrow_toString) (\<lambda>t. Inr (t @ ''\<newline>''))),
        says
          [utf8 LightBulb @ '' INTERVIEW INSIGHTS:\<newline>'',
           ''   '' @ utf8 Bullet @ '' Builder pattern provides fluent, readable API\<newline>'',
           ''   '' @ utf8 Bullet @ '' Separates construction logic from representation\<newline>'',
           ''   '' @ utf8 Bullet @ '' Allows step-by-step validation during build\<newline>'',
           ''   '' @ utf8 Bullet @ '' Better than telescoping constructors\<newline>'',
           ''   '' @ utf8 Bullet @ '' Can create different representations from same builder\<newline>\<newline>'',
           utf8 DirectHit @ '' WHEN TO USE:\<newline>'',
           ''   '' @ utf8 Bullet @ '' Object has many optional parameters\<newline>'',
           ''   '' @ utf8 Bullet @ '' Need to construct objects step-by-step\<newline>'',
           ''   '' @ utf8 Bullet @ '' Want to enforce immutability after construction\<newline>'',
           ''   '' @ utf8 Bullet @ '' Complex validation required during construction\<newline>'']]"

section \<open>The demo of factory.hpp\<close>

text \<open>
  \<open>processPayment\<close> takes a \<open>double\<close> and only prints it: the amount is modelled by the text
  \<open>operator<<\<close> writes for it, which for the demo's \<open>99.99\<close> is \<open>99.99\<close>.
\<close>

fun processPayment :: "PaymentProcessor \<Rightarrow> string \<Rightarrow> world \<Rightarrow> outcome" where
  "processPayment CreditCardProcessor amount =
     says
       [utf8 CreditCard @ '' Processing credit card payment: $'' @ amount @ ''\<newline>'',
        ''   '' @ utf8 Bullet @ '' Validating card number...\<newline>'',
        ''   '' @ utf8 Bullet @ '' Checking credit limit...\<newline>'',
        ''   '' @ utf8 Bullet @ '' Processing transaction...\<newline>'',
        ''   '' @ utf8 CheckMark @ '' Payment successful!\<newline>'']"
| "processPayment PayPalProcessor amount =
     says
       [utf8 MoneyBag @ '' Processing PayPal payment: $'' @ amount @ ''\<newline>'',
        ''   '' @ utf8 Bullet @ '' Redirecting to PayPal...\<newline>'',
        ''   '' @ utf8 Bullet @ '' Authenticating user...\<newline>'',
        ''   '' @ utf8 Bullet @ '' Processing transaction...\<newline>'',
        ''   '' @ utf8 CheckMark @ '' Payment successful!\<newline>'']"
| "processPayment BitcoinProcessor amount =
     says
       [utf8 BitcoinSign @ '' Processing Bitcoin payment: $'' @ amount @ ''\<newline>'',
        ''   '' @ utf8 Bullet @ '' Converting to BTC...\<newline>'',
        ''   '' @ utf8 Bullet @ '' Broadcasting transaction...\<newline>'',
        ''   '' @ utf8 Bullet @ '' Waiting for confirmations...\<newline>'',
        ''   '' @ utf8 CheckMark @ '' Payment successful!\<newline>'']"

text \<open>The body of the loop \<open>for (const auto& method : paymentMethods)\<close>.\<close>

definition pay_with :: "string \<Rightarrow> string \<Rightarrow> world \<Rightarrow> outcome" where
  "pay_with amount method' =
     block
       [say (''Creating processor for: '' @ method' @ ''\<newline>''),
        (\<lambda>w. case createProcessor method' of
                Inl f \<Rightarrow> Raises f w
              | Inr processor \<Rightarrow>
                  block
                    [say (''Processor created: '' @ getProcessorName processor
                          @ ''\<newline>\<newline>''),
                     processPayment processor amount,
                     say (''\<newline>'' @ replicate 50 CHR ''-'' @ ''\<newline>\<newline>'')] w)]"

definition demoFactory :: "world \<Rightarrow> outcome" where
  "demoFactory =
     block
       ([enter Factory,
         say ''=== FACTORY PATTERN DEMO ===\<newline>\<newline>'',
         say (utf8 Briefcase @ '' Payment Processing System\<newline>\<newline>'')]
        @ map (pay_with ''99.99'') [''credit_card'', ''paypal'', ''bitcoin'']
        @ [says
            [utf8 LightBulb @ '' INTERVIEW INSIGHTS:\<newline>'',
             ''   '' @ utf8 Bullet @ '' Factory encapsulates object creation logic\<newline>'',
             ''   '' @ utf8 Bullet @ '' Client doesn't need to know concrete classes\<newline>'',
             ''   '' @ utf8 Bullet @ '' Easy to add new product types without modifying client\<newline>'',
             ''   '' @ utf8 Bullet @ '' Promotes loose coupling and testability\<newline>'',
             ''   '' @ utf8 Bullet @ '' Can use abstract factory for families of related objects\<newline>\<newline>'',
             utf8 DirectHit @ '' WHEN TO USE:\<newline>'',
             ''   '' @ utf8 Bullet @ '' Don't know exact types ahead of time\<newline>'',
             ''   '' @ utf8 Bullet @ '' Want to provide library/framework extension points\<newline>'',
             ''   '' @ utf8 Bullet @ '' Need to delegate instantiation to subclasses\<newline>'',
             ''   '' @ utf8 Bullet @ '' Want to manage/control object creation process\<newline>'']])"

section \<open>singleton.hpp\<close>

text \<open>
  The constructor \<open>ConfigurationManager() : appName_("MyApp"), version_("1.0.0"),
  debugMode_(false)\<close>, run on the storage at an address: the members are initialised, then
  the body prints one line.
\<close>

definition ConfigurationManager_new :: ConfigurationManager where
  "ConfigurationManager_new =
     \<lparr>appName_m = ''MyApp'', version_m = ''1.0.0'', debugMode_m = False\<rparr>"

definition construct :: "addr \<Rightarrow> world \<Rightarrow> world" where
  "construct a w =
     print (utf8 Wrench @ '' ConfigurationManager initialized\<newline>'')
       (w\<lparr>memory := (memory w)(a \<mapsto> ConfigurationManager_new),
          constructed := Suc (constructed w)\<rparr>)"

text \<open>
  \<open>static ConfigurationManager instance; return instance;\<close> The static is constructed by the
  first call that reaches its declaration and never again; the reference returned is its
  address. This is the accessor as one thread runs it.
\<close>

definition getInstance :: "env \<Rightarrow> world \<Rightarrow> addr \<times> world" where
  "getInstance e w =
     (case memory w (instance_at e) of
        None \<Rightarrow> (instance_at e, construct (instance_at e) w)
      | Some c \<Rightarrow> (instance_at e, w))"

text \<open>
  The member functions, called through a reference \<open>self\<close>. Each holds
  \<open>std::lock_guard<std::mutex>\<close> on the object's mutex from its first statement to its
  return, so it is one step for every other thread. A reference to storage that holds no
  constructed object is undefined behaviour, a failure of the model.
\<close>

definition setAppName :: "addr \<Rightarrow> string \<Rightarrow> world \<Rightarrow> outcome" where
  "setAppName self name w =
     (case memory w self of
        None \<Rightarrow> Raises DanglingReference w
      | Some c \<Rightarrow> Returns (w\<lparr>memory := (memory w)(self \<mapsto> c\<lparr>appName_m := name\<rparr>)\<rparr>))"

definition getAppName :: "addr \<Rightarrow> world \<Rightarrow> fault + string" where
  "getAppName self w =
     (case memory w self of None \<Rightarrow> Inl DanglingReference | Some c \<Rightarrow> Inr (appName_m c))"

definition setVersion :: "addr \<Rightarrow> string \<Rightarrow> world \<Rightarrow> outcome" where
  "setVersion self version w =
     (case memory w self of
        None \<Rightarrow> Raises DanglingReference w
      | Some c \<Rightarrow> Returns (w\<lparr>memory := (memory w)(self \<mapsto> c\<lparr>version_m := version\<rparr>)\<rparr>))"

definition getVersion :: "addr \<Rightarrow> world \<Rightarrow> fault + string" where
  "getVersion self w =
     (case memory w self of None \<Rightarrow> Inl DanglingReference | Some c \<Rightarrow> Inr (version_m c))"

definition setDebugMode :: "addr \<Rightarrow> bool \<Rightarrow> world \<Rightarrow> outcome" where
  "setDebugMode self debug w =
     (case memory w self of
        None \<Rightarrow> Raises DanglingReference w
      | Some c \<Rightarrow> Returns (w\<lparr>memory := (memory w)(self \<mapsto> c\<lparr>debugMode_m := debug\<rparr>)\<rparr>))"

definition isDebugMode :: "addr \<Rightarrow> world \<Rightarrow> fault + bool" where
  "isDebugMode self w =
     (case memory w self of None \<Rightarrow> Inl DanglingReference | Some c \<Rightarrow> Inr (debugMode_m c))"

definition displayConfig :: "addr \<Rightarrow> world \<Rightarrow> outcome" where
  "displayConfig self w =
     (case memory w self of
        None \<Rightarrow> Raises DanglingReference w
      | Some c \<Rightarrow>
          says
            [utf8 Gear @ utf8 VS16 @ ''  Configuration:\<newline>'',
             ''   App Name: '' @ appName_m c @ ''\<newline>'',
             ''   Version: '' @ version_m c @ ''\<newline>'',
             ''   Debug Mode: '' @ (if debugMode_m c then ''ON'' else ''OFF'') @ ''\<newline>''] w)"

definition demoSingleton :: "env \<Rightarrow> world \<Rightarrow> outcome" where
  "demoSingleton e =
     block
       [enter Singleton,
        say ''=== SINGLETON PATTERN DEMO ===\<newline>\<newline>'',
        say (utf8 Memo @ '' Accessing singleton instance (first time):\<newline>''),
        (\<lambda>w. case getInstance e w of (config1, w) \<Rightarrow>
           block
             [displayConfig config1,
              say (''\<newline>'' @ utf8 Memo @ '' Modifying configuration:\<newline>''),
              setAppName config1 ''Design Patterns Demo'',
              setVersion config1 ''2.0.0'',
              setDebugMode config1 True,
              say (''\<newline>'' @ utf8 Memo @ '' Accessing singleton instance (second time):\<newline>''),
              (\<lambda>w. case getInstance e w of (config2, w) \<Rightarrow>
                 block
                   [displayConfig config2,
                    says
                      [''\<newline>'' @ utf8 CheckMark @ '' Both references point to the same instance!\<newline>'',
                       ''   Address of config1: '' @ show_addr e config1 @ ''\<newline>'',
                       ''   Address of config2: '' @ show_addr e config2 @ ''\<newline>'',
                       ''\<newline>'' @ utf8 LightBulb @ '' INTERVIEW INSIGHTS:\<newline>'',
                       ''   '' @ utf8 Bullet @ '' Meyer's Singleton (C++11) is thread-safe by default\<newline>'',
                       ''   '' @ utf8 Bullet @ '' Static local variable ensures single instance\<newline>'',
                       ''   '' @ utf8 Bullet @ '' Lazy initialization - created on first use\<newline>'',
                       ''   '' @ utf8 Bullet @ '' Use mutex for thread-safe member access\<newline>'',
                       ''   '' @ utf8 Bullet @ '' Consider dependency injection as alternative\<newline>\<newline>'',
                       utf8 WarningSign @ utf8 VS16 @ ''  CAUTIONS:\<newline>'',
                       ''   '' @ utf8 Bullet @ '' Can become anti-pattern if overused\<newline>'',
                       ''   '' @ utf8 Bullet @ '' Makes unit testing harder (global state)\<newline>'',
                       ''   '' @ utf8 Bullet @ '' Hidden dependencies between classes\<newline>'',
                       ''   '' @ utf8 Bullet @ '' Consider alternatives: DI, static methods\<newline>'']] w)] w)]"

subsection \<open>Callers of the singleton\<close>

text \<open>
  \<open>getInstances e n w\<close> calls the accessor \<open>n\<close> times in a row and collects the references.
\<close>

fun getInstances :: "env \<Rightarrow> nat \<Rightarrow> world \<Rightarrow> addr list \<times> world" where
  "getInstances e 0 w = ([], w)"
| "getInstances e (Suc n) w =
     (case getInstance e w of (r, w') \<Rightarrow>
        (case getInstances e n w' of (rs, w'') \<Rightarrow> (r # rs, w'')))"

text \<open>
  Several threads that use the singleton. Each thread has a list of member calls to make,
  every one written \<open>ConfigurationManager::getInstance().f(...)\<close>: it first calls the
  accessor, then the member function through the reference it got. A schedule is the order
  in which the threads take their steps, and a thread that cannot go on leaves the state as
  it is.

  A member call is one step: the member holds the lock on the object's mutex throughout.
  The accessor is more than one step when the static is not yet initialised. By the rule of
  C++11 for block-scope statics, which the comment on \<open>getInstance\<close> relies on, the first
  thread to reach the declaration becomes the one that initialises (\<open>initialising\<close> names
  it), its next step runs the constructor, and a thread that reaches the declaration in
  between waits until the initialisation is complete.
\<close>

datatype call =
  SetAppName string | GetAppName | SetVersion string | GetVersion
  | SetDebugMode bool | IsDebugMode

datatype answer = Done | Text string | Flag bool | Failure fault

fun failed :: "answer \<Rightarrow> bool" where
  "failed (Failure f) = True"
| "failed a = False"

record thread =
  todo :: "call list"
  holding :: "addr option"
  got :: "addr list"
  seen :: "answer list"

record system =
  shared :: world
  initialising :: "nat option"
  threads :: "thread list"

fun setter_answer :: "outcome \<Rightarrow> answer \<times> world" where
  "setter_answer (Returns w) = (Done, w)"
| "setter_answer (Raises f w) = (Failure f, w)"

fun perform :: "call \<Rightarrow> addr \<Rightarrow> world \<Rightarrow> answer \<times> world" where
  "perform (SetAppName x) r w = setter_answer (setAppName r x w)"
| "perform GetAppName r w =
     (case getAppName r w of Inl f \<Rightarrow> (Failure f, w) | Inr x \<Rightarrow> (Text x, w))"
| "perform (SetVersion x) r w = setter_answer (setVersion r x w)"
| "perform GetVersion r w =
     (case getVersion r w of Inl f \<Rightarrow> (Failure f, w) | Inr x \<Rightarrow> (Text x, w))"
| "perform (SetDebugMode x) r w = setter_answer (setDebugMode r x w)"
| "perform IsDebugMode r w =
     (case isDebugMode r w of Inl f \<Rightarrow> (Failure f, w) | Inr x \<Rightarrow> (Flag x, w))"

definition returned :: "addr \<Rightarrow> thread \<Rightarrow> thread" where
  "returned r t = t\<lparr>holding := Some r, got := got t @ [r]\<rparr>"

definition thread_step ::
  "env \<Rightarrow> nat \<Rightarrow> nat option \<Rightarrow> world \<Rightarrow> thread \<Rightarrow> nat option \<times> world \<times> thread" where
  "thread_step e i g w t =
     (case todo t of
        [] \<Rightarrow> (g, w, t)
      | c # cs \<Rightarrow>
          (case holding t of
             Some r \<Rightarrow>
               (case perform c r w of (a, w') \<Rightarrow>
                  (g, w', t\<lparr>todo := cs, holding := None, seen := seen t @ [a]\<rparr>))
           | None \<Rightarrow>
               if memory w (instance_at e) \<noteq> None
               then (case getInstance e w of (r, w') \<Rightarrow> (g, w', returned r t))
               else if g = None then (Some i, w, t)
               else if g = Some i
               then (None, construct (instance_at e) w, returned (instance_at e) t)
               else (g, w, t)))"

definition step :: "env \<Rightarrow> system \<Rightarrow> nat \<Rightarrow> system" where
  "step e s i =
     (if i < length (threads s)
      then (case thread_step e i (initialising s) (shared s) (threads s ! i) of
              (g', w', t') \<Rightarrow>
                s\<lparr>shared := w', initialising := g', threads := (threads s)[i := t']\<rparr>)
      else s)"

definition exec :: "env \<Rightarrow> nat list \<Rightarrow> system \<Rightarrow> system" where
  "exec e schedule s = foldl (step e) s schedule"

definition boot :: "string \<Rightarrow> call list list \<Rightarrow> system" where
  "boot input programs =
     \<lparr>shared = start input,
      initialising = None,
      threads = map (\<lambda>p. \<lparr>todo = p, holding = None, got = [], seen = []\<rparr>) programs\<rparr>"

text \<open>
  The state of the singleton that every step keeps: the constructor has run once if the
  static holds an object and not at all otherwise. A thread is \<open>settled\<close> when every
  reference it has got or holds is the address of the static, the static holds an object as
  soon as the thread has a reference, and no member call of the thread has failed. A system
  is \<open>sound\<close> when this holds of its state and of all its threads, and the static holds
  no object while a thread is initialising it.
\<close>

definition once :: "env \<Rightarrow> world \<Rightarrow> bool" where
  "once e w = (constructed w = (if memory w (instance_at e) = None then 0 else 1))"

definition settled :: "env \<Rightarrow> world \<Rightarrow> thread \<Rightarrow> bool" where
  "settled e w t =
     (set (got t) \<subseteq> {instance_at e}
      \<and> (holding t = None \<or> holding t = Some (instance_at e))
      \<and> ((got t = [] \<and> holding t = None) \<or> memory w (instance_at e) \<noteq> None)
      \<and> list_all (\<lambda>a. \<not> failed a) (seen t))"

definition sound :: "env \<Rightarrow> system \<Rightarrow> bool" where
  "sound e s =
     (once e (shared s)
      \<and> (initialising s = None \<or> memory (shared s) (instance_at e) = None)
      \<and> (\<forall>t \<in> set (threads s). settled e (shared s) t))"

section \<open>main.cpp\<close>

text \<open>
  The demo procedures of the headers that are not among the sources: each is entered, prints
  what \<open>absent\<close> says and returns, or is left by the exception \<open>absent\<close> names.
\<close>

definition absent_demo :: "env \<Rightarrow> demo \<Rightarrow> world \<Rightarrow> outcome" where
  "absent_demo e d =
     block
       [enter d,
        say (fst (absent e d)),
        (\<lambda>w. case snd (absent e d) of None \<Rightarrow> Returns w | Some x \<Rightarrow> Raises (Throw x) w)]"

definition demoObserver :: "env \<Rightarrow> world \<Rightarrow> outcome" where
  "demoObserver e = absent_demo e Observer"

definition demoStrategy :: "env \<Rightarrow> world \<Rightarrow> outcome" where
  "demoStrategy e = absent_demo e Strategy"

definition demoCommand :: "env \<Rightarrow> world \<Rightarrow> outcome" where
  "demoCommand e = absent_demo e Command"

definition demoDecorator :: "env \<Rightarrow> world \<Rightarrow> outcome" where
  "demoDecorator e = absent_demo e Decorator"

definition demoAdapter :: "env \<Rightarrow> world \<Rightarrow> outcome" where
  "demoAdapter e = absent_demo e Adapter"

definition demoFacade :: "env \<Rightarrow> world \<Rightarrow> outcome" where
  "demoFacade e = absent_demo e Facade"

definition demoTemplateMethod :: "env \<Rightarrow> world \<Rightarrow> outcome" where
  "demoTemplateMethod e = absent_demo e TemplateMethod"

definition demoProxy :: "env \<Rightarrow> world \<Rightarrow> outcome" where
  "demoProxy e = absent_demo e Proxy"

definition demoVisitor :: "env \<Rightarrow> world \<Rightarrow> outcome" where
  "demoVisitor e = absent_demo e Visitor"

definition demoMemento :: "env \<Rightarrow> world \<Rightarrow> outcome" where
  "demoMemento e = absent_demo e Memento"

definition demoChainOfResponsibility :: "env \<Rightarrow> world \<Rightarrow> outcome" where
  "demoChainOfResponsibility e = absent_demo e ChainOfResponsibility"

definition demoState :: "env \<Rightarrow> world \<Rightarrow> outcome" where
  "demoState e = absent_demo e State"

definition displayHeader :: "world \<Rightarrow> world" where
  "displayHeader =
     prints
       [''\<newline>'' @ replicate 80 CHR ''='' @ ''\<newline>'',
        utf8 Rocket @ '' DESIGN PATTERNS INTERVIEW PREP - C++ EDITION '' @ utf8 Rocket @ ''\<newline>'',
        replicate 80 CHR ''='' @ ''\<newline>'',
        ''Master the most common design patterns in C++!\<newline>'',
        ''Each pattern includes real-world examples and modern C++ features.\<newline>'',
        replicate 80 CHR ''='' @ ''\<newline>'']"

definition displayMenu :: "world \<Rightarrow> world" where
  "displayMenu =
     prints
       [''\<newline>'' @ utf8 Books @ '' AVAILABLE PATTERNS:\<newline>'',
        replicate 50 CHR ''-'' @ ''\<newline>'',
        ''1.  Builder Pattern - Complex Object Construction\<newline>'',
        ''2.  Factory Pattern - Object Creation\<newline>'',
        ''3.  Singleton Pattern - Single Instance Management\<newline>'',
        ''4.  Observer Pattern - Event System & Notifications\<newline>'',
        ''5.  Strategy Pattern - Algorithm Selection\<newline>'',
        ''6.  Command Pattern - Undo/Redo & Transactions\<newline>'',
        ''7.  Decorator Pattern - Dynamic Behavior\<newline>'',
        ''8.  Adapter Pattern - Legacy Integration\<newline>'',
        ''9.  Facade Pattern - Simplified Interface\<newline>'',
        ''10. Template Method Pattern - Algorithm Skeleton\<newline>'',
        ''11. Proxy Pattern - Lazy Loading\<newline>'',
        ''12. Visitor Pattern - Operations on Structures\<newline>'',
        ''13. Memento Pattern - State Restoration\<newline>'',
        ''14. Chain of Responsibility - Request Handling\<newline>'',
        ''15. State Pattern - Behavior Based on State\<newline>'',
        ''16. '' @ utf8 OpenBook @ '' Interview Tips & Common Questions\<newline>'',
        ''17. '' @ utf8 Door @ '' Exit\<newline>'',
        replicate 50 CHR ''-'' @ ''\<newline>'']"

text \<open>The fifteen patterns in the order of the menu, and the name the menu gives each.\<close>

definition menu_order :: "demo list" where
  "menu_order =
     [Builder, Factory, Singleton, Observer, Strategy, Command, Decorator, Adapter, Facade,
      TemplateMethod, Proxy, Visitor, Memento, ChainOfResponsibility, State]"

fun patternName :: "demo \<Rightarrow> string" where
  "patternName Builder = ''Builder''"
| "patternName Factory = ''Factory''"
| "patternName Singleton = ''Singleton''"
| "patternName Observer = ''Observer''"
| "patternName Strategy = ''Strategy''"
| "patternName Command = ''Command''"
| "patternName Decorator = ''Decorator''"
| "patternName Adapter = ''Adapter''"
| "patternName Facade = ''Facade''"
| "patternName TemplateMethod = ''Template Method''"
| "patternName Proxy = ''Proxy''"
| "patternName Visitor = ''Visitor''"
| "patternName Memento = ''Memento''"
| "patternName ChainOfResponsibility = ''Chain of Responsibility''"
| "patternName State = ''State''"

definition tips :: "string list" where
  "tips =
     [utf8 DirectHit @ '' Always explain the problem the pattern solves'',
      utf8 LightBulb @ '' Provide real-world examples from your experience'',
      utf8 Wrench @ '' Show how to implement the pattern step by step'',
      utf8 WarningSign @ utf8 VS16 @ '' Discuss trade-offs and when NOT to use the pattern'',
      utf8 Rocket @ '' Mention performance implications and alternatives'',
      utf8 TestTube @ '' Be ready to handle edge cases and error scenarios'']"

definition questions :: "string list" where
  "questions =
     [''How would you test this pattern?'',
      ''What are the performance implications?'',
      ''How does this compare to [other pattern]?'',
      ''What if you need to handle [specific edge case]?'',
      ''How would you implement this in a distributed system?'',
      ''What are the memory implications?'']"

definition displayInterviewTips :: "world \<Rightarrow> world" where
  "displayInterviewTips =
     prints
       ([''\<newline>'' @ replicate 60 CHR ''='' @ ''\<newline>'',
         utf8 OpenBook @ '' INTERVIEW TIPS & STRATEGIES\<newline>'',
         replicate 60 CHR ''='' @ ''\<newline>'',
         ''\<newline>'' @ utf8 LightBulb @ '' Key Interview Tips:\<newline>'']
        @ map (\<lambda>tip. ''   '' @ tip @ ''\<newline>'') tips
        @ [''\<newline>'' @ utf8 Arrows @ '' Common Follow-up Questions:\<newline>'']
        @ map (\<lambda>i. ''   '' @ show_nat (i + 1) @ ''. '' @ questions ! i @ ''\<newline>'')
            [0 ..< length questions]
        @ [''\<newline>'' @ replicate 60 CHR ''='' @ ''\<newline>''])"

text \<open>
  The \<open>switch\<close> of \<open>runPatternDemo\<close>: the procedure of the case label \<open>choice\<close> matches, or
  \<open>None\<close> for \<open>default\<close>, which prints and returns at once.
\<close>

definition switch :: "env \<Rightarrow> int \<Rightarrow> (world \<Rightarrow> outcome) option" where
  "switch e choice =
     (if choice = 1 then Some demoBuilder
      else if choice = 2 then Some demoFactory
      else if choice = 3 then Some (demoSingleton e)
      else if choice = 4 then Some (demoObserver e)
      else if choice = 5 then Some (demoStrategy e)
      else if choice = 6 then Some (demoCommand e)
      else if choice = 7 then Some (demoDecorator e)
      else if choice = 8 then Some (demoAdapter e)
      else if choice = 9 then Some (demoFacade e)
      else if choice = 10 then Some (demoTemplateMethod e)
      else if choice = 11 then Some (demoProxy e)
      else if choice = 12 then Some (demoVisitor e)
      else if choice = 13 then Some (demoMemento e)
      else if choice = 14 then Some (demoChainOfResponsibility e)
      else if choice = 15 then Some (demoState e)
      else None)"

definition runPatternDemo :: "env \<Rightarrow> int \<Rightarrow> world \<Rightarrow> outcome" where
  "runPatternDemo e choice =
     block
       [say (''\<newline>'' @ utf8 Rocket @ '' Running demo...\<newline>\<newline>''),
        (case switch e choice of
           None \<Rightarrow> say (utf8 CrossMark @ '' Invalid pattern selection!\<newline>'')
         | Some demo \<Rightarrow>
             block
               [demo,
                say (''\<newline>'' @ replicate 60 CHR ''='' @ ''\<newline>''),
                say (utf8 CheckMark @ '' Demo completed successfully!\<newline>'')])]"

definition clearInputBuffer :: "world \<Rightarrow> world" where
  "clearInputBuffer w = w\<lparr>cin := ignore_line (clear (cin w))\<rparr>"

definition waitForEnter :: "world \<Rightarrow> world" where
  "waitForEnter w =
     (let w1 = clearInputBuffer (print ''\<newline>Press Enter to continue...'' w)
      in w1\<lparr>cin := get (cin w1)\<rparr>)"

definition farewell :: "world \<Rightarrow> world" where
  "farewell =
     prints
       [''\<newline>'' @ utf8 PartyPopper
        @ '' Thanks for using Design Patterns Interview Prep (C++ Edition)!\<newline>'',
        ''Good luck with your interviews! '' @ utf8 Rocket @ ''\<newline>'']"

text \<open>The two lines \<open>run\<close> prints before either \<open>break\<close>, as one text.\<close>

abbreviation farewell_text :: string where
  "farewell_text \<equiv>
     ''\<newline>'' @ utf8 PartyPopper
       @ '' Thanks for using Design Patterns Interview Prep (C++ Edition)!\<newline>''
       @ ''Good luck with your interviews! '' @ utf8 Rocket @ ''\<newline>''"

text \<open>
  The procedure of each pattern, by its name in the sources, for stating which one the
  dispatcher calls.
\<close>

fun "procedure" :: "env \<Rightarrow> demo \<Rightarrow> world \<Rightarrow> outcome" where
  "procedure e Builder = demoBuilder"
| "procedure e Factory = demoFactory"
| "procedure e Singleton = demoSingleton e"
| "procedure e Observer = demoObserver e"
| "procedure e Strategy = demoStrategy e"
| "procedure e Command = demoCommand e"
| "procedure e Decorator = demoDecorator e"
| "procedure e Adapter = demoAdapter e"
| "procedure e Facade = demoFacade e"
| "procedure e TemplateMethod = demoTemplateMethod e"
| "procedure e Proxy = demoProxy e"
| "procedure e Visitor = demoVisitor e"
| "procedure e Memento = demoMemento e"
| "procedure e ChainOfResponsibility = demoChainOfResponsibility e"
| "procedure e State = demoState e"

text \<open>
  Modelled from the spec: the demo procedures of \<open>observer.hpp\<close> to \<open>state.hpp\<close> are not
  among the sources. The specification says of every menu option from 1 to 15 that it
  "produces output containing that pattern's name"; for the twelve absent procedures
  this is the assumption below on what they print.
\<close>

definition absent_name_their_pattern :: "env \<Rightarrow> bool" where
  "absent_name_their_pattern e =
     list_all (\<lambda>d. sublist (patternName d) (fst (absent e d))) (drop 3 menu_order)"

text \<open>
  Two environments for the examples: in \<open>quiet_env\<close> every absent demo prints a line
  with the name of its pattern and returns; in \<open>failing_env\<close> the Observer demo is left by
  the exception \<open>createProcessor\<close> throws for the name \<open>cash\<close>.
\<close>

definition quiet_env :: env where
  "quiet_env =
     \<lparr>absent = (\<lambda>d. (''=== '' @ patternName d @ '' ===\<newline>'', None)),
      instance_at = 4096,
      show_addr = (\<lambda>a. ''0x'' @ show_nat a)\<rparr>"

definition failing_env :: env where
  "failing_env =
     quiet_env
       \<lparr>absent := (absent quiet_env)
          (Observer := (''=== Observer ===\<newline>'',
                        Some (invalid_argument ''Unknown payment processor type: cash'')))\<rparr>"

text \<open>
  The words of the specification for the answer that keeps the loop going: \<open>y\<close> or \<open>yes\<close>,
  compared without regard to case.
\<close>

definition tolower :: "char \<Rightarrow> char" where
  "tolower c =
     (if 65 \<le> (of_char c :: nat) \<and> (of_char c :: nat) \<le> 90 then char_of (of_char c + 32 :: nat)
      else c)"

definition affirmative_any_case :: "string \<Rightarrow> bool" where
  "affirmative_any_case r = (map tolower r = ''y'' \<or> map tolower r = ''yes'')"

text \<open>
  The words of the specification for input that is numeric: decimal digits, with or without
  a sign before them, and nothing else.
\<close>

definition numeric :: "string \<Rightarrow> bool" where
  "numeric t =
     (case t of
        [] \<Rightarrow> False
      | c # cs \<Rightarrow>
          if c = CHR ''-'' \<or> c = CHR ''+'' then cs \<noteq> [] \<and> list_all isdigit cs
          else list_all isdigit (c # cs))"

text \<open>
  One pass through the body of \<open>while (true)\<close> in \<open>run\<close>. Of the two locals declared before
  the loop, \<open>continueChoice\<close> is carried from pass to pass, because a failed extraction
  leaves it as it was; \<open>choice\<close> is only read after an extraction that succeeded.
  \<open>Again\<close> is the next pass (also after \<open>continue\<close>), \<open>Leave\<close> is \<open>break\<close>, \<open>Failed\<close> is a
  failure that leaves \<open>run\<close>.
\<close>

datatype flow = is_Again: Again string world | is_Leave: Leave world | is_Failed: Failed fault world

definition ask_continue :: "string \<Rightarrow> world \<Rightarrow> flow" where
  "ask_continue continueChoice w0 =
     (let w = print (''\<newline>'' @ utf8 Arrows
                     @ '' Would you like to explore another pattern? (y/n): '') w0
      in case extract_string (cin w) of (r, s) \<Rightarrow>
        (let continueChoice = (case r of None \<Rightarrow> continueChoice | Some tok \<Rightarrow> tok);
             w = w\<lparr>cin := s\<rparr>
         in if continueChoice \<noteq> ''y'' \<and> continueChoice \<noteq> ''Y''
               \<and> continueChoice \<noteq> ''yes'' \<and> continueChoice \<noteq> ''Yes''
            then Leave (farewell w)
            else Again continueChoice w))"

text \<open>The head of the loop body: the header, the menu and the prompt for a selection.\<close>

definition prompt :: "world \<Rightarrow> world" where
  "prompt w =
     print (''\<newline>'' @ utf8 DirectHit @ '' Choose a pattern to explore (1-17): '')
       (displayMenu (displayHeader w))"

text \<open>
  What the head of the loop body writes, as one text: the lines of \<open>displayHeader\<close> and of
  \<open>displayMenu\<close> and the prompt for a selection.
\<close>

abbreviation screen :: string where
  "screen \<equiv>
     concat
       [''\<newline>'' @ replicate 80 CHR ''='' @ ''\<newline>'',
        utf8 Rocket @ '' DESIGN PATTERNS INTERVIEW PREP - C++ EDITION '' @ utf8 Rocket @ ''\<newline>'',
        replicate 80 CHR ''='' @ ''\<newline>'',
        ''Master the most common design patterns in C++!\<newline>'',
        ''Each pattern includes real-world examples and modern C++ features.\<newline>'',
        replicate 80 CHR ''='' @ ''\<newline>'',
        ''\<newline>'' @ utf8 Books @ '' AVAILABLE PATTERNS:\<newline>'',
        replicate 50 CHR ''-'' @ ''\<newline>'',
        ''1.  Builder Pattern - Complex Object Construction\<newline>'',
        ''2.  Factory Pattern - Object Creation\<newline>'',
        ''3.  Singleton Pattern - Single Instance Management\<newline>'',
        ''4.  Observer Pattern - Event System & Notifications\<newline>'',
        ''5.  Strategy Pattern - Algorithm Selection\<newline>'',
        ''6.  Command Pattern - Undo/Redo & Transactions\<newline>'',
        ''7.  Decorator Pattern - Dynamic Behavior\<newline>'',
        ''8.  Adapter Pattern - Legacy Integration\<newline>'',
        ''9.  Facade Pattern - Simplified Interface\<newline>'',
        ''10. Template Method Pattern - Algorithm Skeleton\<newline>'',
        ''11. Proxy Pattern - Lazy Loading\<newline>'',
        ''12. Visitor Pattern - Operations on Structures\<newline>'',
        ''13. Memento Pattern - State Restoration\<newline>'',
        ''14. Chain of Responsibility - Request Handling\<newline>'',
        ''15. State Pattern - Behavior Based on State\<newline>'',
        ''16. '' @ utf8 OpenBook @ '' Interview Tips & Common Questions\<newline>'',
        ''17. '' @ utf8 Door @ '' Exit\<newline>'',
        replicate 50 CHR ''-'' @ ''\<newline>'',
        ''\<newline>'' @ utf8 DirectHit @ '' Choose a pattern to explore (1-17): '']"

definition pass :: "env \<Rightarrow> string \<Rightarrow> world \<Rightarrow> flow" where
  "pass e continueChoice w0 =
     (let w = prompt w0
      in case extract_int (cin w) of
           (None, s) \<Rightarrow>
             Again continueChoice
               (waitForEnter
                  (clearInputBuffer
                     (print (utf8 CrossMark
                             @ '' Invalid input! Please enter a number between 1-17.\<newline>'')
                        (w\<lparr>cin := s\<rparr>))))
         | (Some choice, s) \<Rightarrow>
             (let w = w\<lparr>cin := s\<rparr>
              in if choice = 16 then Again continueChoice (waitForEnter (displayInterviewTips w))
                 else if choice = 17 then Leave (farewell w)
                 else if 1 \<le> choice \<and> choice \<le> 15
                 then (case runPatternDemo e choice w of
                         Raises f w' \<Rightarrow> Failed f w'
                       | Returns w' \<Rightarrow> ask_continue continueChoice w')
                 else Again continueChoice
                        (waitForEnter
                           (print (utf8 CrossMark @ '' Invalid choice! Please select 1-17.\<newline>'')
                              w))))"

text \<open>The state a pass ends in, whichever way it ends.\<close>

fun reached :: "flow \<Rightarrow> world" where
  "reached (Again continueChoice w) = w"
| "reached (Leave w) = w"
| "reached (Failed f w) = w"

text \<open>
  \<open>run\<close> with a bound on the number of passes: \<open>None\<close> when the bound is used up before the
  loop is left.
\<close>

fun run_from :: "env \<Rightarrow> nat \<Rightarrow> string \<Rightarrow> world \<Rightarrow> outcome option" where
  "run_from e 0 continueChoice w = None"
| "run_from e (Suc n) continueChoice w =
     (case pass e continueChoice w of
        Again continueChoice' w' \<Rightarrow> run_from e n continueChoice' w'
      | Leave w' \<Rightarrow> Some (Returns w')
      | Failed f w' \<Rightarrow> Some (Raises f w'))"

definition run :: "env \<Rightarrow> nat \<Rightarrow> world \<Rightarrow> outcome option" where
  "run e n w = run_from e n [] w"

text \<open>
  \<open>main\<close> on the standard input \<open>input\<close>: the exit status with the final state, or the
  failure no handler caught. The handler is \<open>catch (const std::exception& e)\<close>.
\<close>

datatype ending = Exit int world | Uncaught fault world

definition main :: "env \<Rightarrow> nat \<Rightarrow> string \<Rightarrow> ending option" where
  "main e n input =
     (case run e n (start input) of
        None \<Rightarrow> None
      | Some (Returns w') \<Rightarrow> Some (Exit 0 w')
      | Some (Raises (Throw x) w') \<Rightarrow>
          Some (Exit 1 (w'\<lparr>cerr := cerr w' @ utf8 CrossMark @ '' Fatal error: '' @ what x
                                 @ ''\<newline>''\<rparr>))
      | Some (Raises NullDereference w') \<Rightarrow> Some (Uncaught NullDereference w')
      | Some (Raises DanglingReference w') \<Rightarrow> Some (Uncaught DanglingReference w'))"

section \<open>The factory\<close>

text \<open>
  Claim C3. \<open>createProcessor\<close> applied to \<open>credit_card\<close>, \<open>paypal\<close> or \<open>bitcoin\<close> returns a
  processor whose \<open>getProcessorName()\<close> is \<open>Credit Card Processor\<close>, \<open>PayPal Processor\<close> or
  \<open>Bitcoin Processor\<close>; applied to any other string it returns no processor and throws
  \<open>std::invalid_argument\<close>, the rejected-argument error, whose text names the string.
\<close>

theorem createProcessor_by_name:
  "map_sum id getProcessorName (createProcessor ''credit_card'') = Inr ''Credit Card Processor''
   \<and> map_sum id getProcessorName (createProcessor ''paypal'') = Inr ''PayPal Processor''
   \<and> map_sum id getProcessorName (createProcessor ''bitcoin'') = Inr ''Bitcoin Processor''
   \<and> (\<forall>type. type \<notin> {''credit_card'', ''paypal'', ''bitcoin''} \<longrightarrow>
         createProcessor type
           = Inl (Throw (invalid_argument (''Unknown payment processor type: '' @ type))))"
  by (simp add: createProcessor_def)

theorem createProcessor_by_name_witness:
  "''cash'' \<notin> {''credit_card'', ''paypal'', ''bitcoin''}
   \<and> createProcessor ''cash''
       = Inl (Throw (invalid_argument ''Unknown payment processor type: cash''))"
  using createProcessor_by_name by simp

section \<open>The builder\<close>

lemma show_int_60: "show_int 60 = ''60''"
  by code_simp

lemma through_Some: "through f \<lparr>request_m = Some r\<rparr> = Inr \<lparr>request_m = Some (f r)\<rparr>"
  by (simp add: through_def)

lemma and_then_Inr: "and_then (Inr x) f = f x"
  by (simp add: and_then_def)

lemma fluent_demo_order:
  "fluent [method m, url u, header k v, body b, timeout t] =
     Inr (Some \<lparr>method_m = m, url_m = u, body_m = b, headers_m = [(k, v)], timeout_m = t\<rparr>)"
  by (simp add: fluent_def HttpRequestBuilder_new_def HttpRequest_new_def method_def url_def
      header_def body_def timeout_def through_Some and_then_Inr build_def setMethod_def setUrl_def
      addHeader_def setBody_def setTimeout_def)

lemma toString_one_header:
  assumes "b \<noteq> []"
  shows "toString \<lparr>method_m = m, url_m = u, body_m = b, headers_m = [(k, v)], timeout_m = t\<rparr>
         = ''HTTP Request:\<newline>  Method: '' @ m @ ''\<newline>  URL: '' @ u
           @ ''\<newline>  Timeout: '' @ show_int t @ ''s\<newline>  Headers:\<newline>    '' @ k @ '': '' @ v
           @ ''\<newline>  Body: '' @ b @ ''\<newline>''"
  using assms by (simp add: toString_def header_line_def)

text \<open>A text is part of a concatenation it is a member of, however deep.\<close>

lemma sublist_in_1: "sublist x (a @ x @ z)"
  by (rule sublist_appendI)

lemma sublist_in_2: "sublist x (a @ b @ c @ x @ z)"
  using sublist_appendI [of x "a @ b @ c" z] by simp

lemma sublist_in_3: "sublist x (a @ b @ c @ d @ e @ x @ z)"
  using sublist_appendI [of x "a @ b @ c @ d @ e" z] by simp

lemma sublist_in_4: "sublist x (a @ b @ c @ d @ e @ f @ g @ x @ z)"
  using sublist_appendI [of x "a @ b @ c @ d @ e @ f @ g" z] by simp

lemma sublist_in_5: "sublist x (a @ b @ c @ d @ e @ f @ g @ h @ i @ x @ z)"
  using sublist_appendI [of x "a @ b @ c @ d @ e @ f @ g @ h @ i" z] by simp

lemma sublist_in_6: "sublist x (a @ b @ c @ d @ e @ f @ g @ h @ i @ j @ k @ x @ z)"
  using sublist_appendI [of x "a @ b @ c @ d @ e @ f @ g @ h @ i @ j @ k" z] by simp

lemma toString_of_fields:
  assumes "b \<noteq> []"
    and "method_m r = m" and "url_m r = u" and "headers_m r = [(k, v)]" and "body_m r = b"
    and "timeout_m r = t"
  shows "toString r
         = ''HTTP Request:\<newline>  Method: '' @ m @ ''\<newline>  URL: '' @ u
           @ ''\<newline>  Timeout: '' @ show_int t @ ''s\<newline>  Headers:\<newline>    '' @ k @ '': '' @ v
           @ ''\<newline>  Body: '' @ b @ ''\<newline>''"
  using assms by (simp add: toString_def header_line_def)

text \<open>
  Claim C5. A request built through \<open>HttpRequestBuilder\<close> with the method \<open>POST\<close>, the URL
  \<open>https://api.example.com/users\<close>, one header \<open>k: v\<close>, a body \<open>b\<close> that is not empty and the
  timeout 60 is rendered by \<open>toString()\<close> as the text below, which holds the method, the URL,
  the key and the value of the header, the body and \<open>60\<close> as they were given. This holds of
  the chain in the order of the demo, and of every request with these values that a chain of
  builder calls returns.
\<close>

theorem toString_holds_built_values:
  assumes "b \<noteq> []"
  shows "(\<exists>r. fluent [method ''POST'', url ''https://api.example.com/users'', header k v, body b,
                   timeout 60] = Inr (Some r)
           \<and> toString r
               = ''HTTP Request:\<newline>  Method: POST\<newline>  URL: https://api.example.com/users''
                 @ ''\<newline>  Timeout: 60s\<newline>  Headers:\<newline>    '' @ k @ '': '' @ v
                 @ ''\<newline>  Body: '' @ b @ ''\<newline>''
           \<and> sublist ''POST'' (toString r)
           \<and> sublist ''https://api.example.com/users'' (toString r)
           \<and> sublist k (toString r) \<and> sublist v (toString r)
           \<and> sublist b (toString r)
           \<and> sublist ''60'' (toString r))
     \<and> (\<forall>setters r.
           fluent setters = Inr (Some r) \<and> method_m r = ''POST''
           \<and> url_m r = ''https://api.example.com/users'' \<and> headers_m r = [(k, v)]
           \<and> body_m r = b \<and> timeout_m r = 60
           \<longrightarrow> toString r
               = ''HTTP Request:\<newline>  Method: POST\<newline>  URL: https://api.example.com/users''
                 @ ''\<newline>  Timeout: 60s\<newline>  Headers:\<newline>    '' @ k @ '': '' @ v
                 @ ''\<newline>  Body: '' @ b @ ''\<newline>'')"
proof (intro conjI allI impI)
  let ?r = "\<lparr>method_m = ''POST'', url_m = ''https://api.example.com/users'', body_m = b,
             headers_m = [(k, v)], timeout_m = 60\<rparr>"
  have built: "fluent [method ''POST'', url ''https://api.example.com/users'', header k v, body b,
                   timeout 60] = Inr (Some ?r)"
    by (rule fluent_demo_order)
  have rendered: "toString ?r = ''HTTP Request:\<newline>  Method: '' @ ''POST'' @ ''\<newline>  URL: ''
           @ ''https://api.example.com/users''
           @ ''\<newline>  Timeout: '' @ ''60'' @ ''s\<newline>  Headers:\<newline>    '' @ k @ '': '' @ v
           @ ''\<newline>  Body: '' @ b @ ''\<newline>''"
    unfolding toString_one_header [OF assms] show_int_60 ..
  have "toString ?r
               = ''HTTP Request:\<newline>  Method: POST\<newline>  URL: https://api.example.com/users''
                 @ ''\<newline>  Timeout: 60s\<newline>  Headers:\<newline>    '' @ k @ '': '' @ v
                 @ ''\<newline>  Body: '' @ b @ ''\<newline>''"
    unfolding rendered by simp
  moreover have "sublist ''POST'' (toString ?r)"
    unfolding rendered by (rule sublist_in_1)
  moreover have "sublist ''https://api.example.com/users'' (toString ?r)"
    unfolding rendered by (rule sublist_in_2)
  moreover have "sublist ''60'' (toString ?r)"
    unfolding rendered by (rule sublist_in_3)
  moreover have "sublist k (toString ?r)"
    unfolding rendered by (rule sublist_in_4)
  moreover have "sublist v (toString ?r)"
    unfolding rendered by (rule sublist_in_5)
  moreover have "sublist b (toString ?r)"
    unfolding rendered by (rule sublist_in_6)
  ultimately show "\<exists>r. fluent [method ''POST'', url ''https://api.example.com/users'', header k v, body b,
                   timeout 60] = Inr (Some r)
           \<and> toString r
               = ''HTTP Request:\<newline>  Method: POST\<newline>  URL: https://api.example.com/users''
                 @ ''\<newline>  Timeout: 60s\<newline>  Headers:\<newline>    '' @ k @ '': '' @ v
                 @ ''\<newline>  Body: '' @ b @ ''\<newline>''
           \<and> sublist ''POST'' (toString r)
           \<and> sublist ''https://api.example.com/users'' (toString r)
           \<and> sublist k (toString r) \<and> sublist v (toString r)
           \<and> sublist b (toString r)
           \<and> sublist ''60'' (toString r)"
    using built by blast
next
  fix setters r
  assume "fluent setters = Inr (Some r) \<and> method_m r = ''POST''
           \<and> url_m r = ''https://api.example.com/users'' \<and> headers_m r = [(k, v)]
           \<and> body_m r = b \<and> timeout_m r = 60"
  then show "toString r
               = ''HTTP Request:\<newline>  Method: POST\<newline>  URL: https://api.example.com/users''
                 @ ''\<newline>  Timeout: 60s\<newline>  Headers:\<newline>    '' @ k @ '': '' @ v
                 @ ''\<newline>  Body: '' @ b @ ''\<newline>''"
    using toString_of_fields [OF assms, of r "''POST''" "''https://api.example.com/users''" k v 60]
    by (simp add: show_int_60)
qed

theorem toString_holds_built_values_witness:
  "''{}'' \<noteq> []
   \<and> (\<exists>r. fluent [method ''POST'', url ''https://api.example.com/users'',
                  header ''Accept'' ''text/plain'', body ''{}'', timeout 60] = Inr (Some r)
          \<and> toString r
              = ''HTTP Request:\<newline>  Method: POST\<newline>  URL: https://api.example.com/users''
                @ ''\<newline>  Timeout: 60s\<newline>  Headers:\<newline>    Accept: text/plain''
                @ ''\<newline>  Body: {}\<newline>'')
   \<and> (\<exists>r. fluent [timeout 60, body ''{}'', header ''Accept'' ''text/plain'',
                  url ''https://api.example.com/users'', method ''POST''] = Inr (Some r)
          \<and> toString r
              = ''HTTP Request:\<newline>  Method: POST\<newline>  URL: https://api.example.com/users''
                @ ''\<newline>  Timeout: 60s\<newline>  Headers:\<newline>    Accept: text/plain''
                @ ''\<newline>  Body: {}\<newline>'')"
proof -
  have ne: "''{}'' \<noteq> []" by simp
  note both = toString_holds_built_values [OF ne, of "''Accept''" "''text/plain''"]
  have other: "fluent [timeout 60, body ''{}'', header ''Accept'' ''text/plain'',
                  url ''https://api.example.com/users'', method ''POST'']
      = Inr (Some \<lparr>method_m = ''POST'', url_m = ''https://api.example.com/users'', body_m = ''{}'',
             headers_m = [(''Accept'', ''text/plain'')], timeout_m = 60\<rparr>)"
    by (simp add: fluent_def HttpRequestBuilder_new_def HttpRequest_new_def method_def url_def
        header_def body_def timeout_def through_Some and_then_Inr build_def setMethod_def
        setUrl_def addHeader_def setBody_def setTimeout_def)
  have "toString \<lparr>method_m = ''POST'', url_m = ''https://api.example.com/users'', body_m = ''{}'',
             headers_m = [(''Accept'', ''text/plain'')], timeout_m = 60\<rparr>
              = ''HTTP Request:\<newline>  Method: POST\<newline>  URL: https://api.example.com/users''
                @ ''\<newline>  Timeout: 60s\<newline>  Headers:\<newline>    Accept: text/plain''
                @ ''\<newline>  Body: {}\<newline>''"
    using both other by simp
  then show ?thesis
    using both other ne by auto
qed

text \<open>
  Claim C10. \<open>build()\<close> hands the request the builder owns to the caller and leaves the
  builder empty: a second \<open>build()\<close> on the same builder returns a null pointer, and each
  of the five setters called after \<open>build()\<close> goes through a null pointer.
\<close>

theorem build_leaves_builder_empty:
  "fst (build b) = request_m b
   \<and> request_m (snd (build b)) = None
   \<and> fst (build (snd (build b))) = None
   \<and> method m (snd (build b)) = Inl NullDereference
   \<and> url u (snd (build b)) = Inl NullDereference
   \<and> body t (snd (build b)) = Inl NullDereference
   \<and> header k v (snd (build b)) = Inl NullDereference
   \<and> timeout n (snd (build b)) = Inl NullDereference"
  by (simp add: build_def method_def url_def body_def header_def timeout_def through_def)

section \<open>Printing\<close>

lemma prints_eq: "prints ts w = w\<lparr>cout := cout w @ concat ts\<rparr>"
  unfolding prints_def by (induction ts arbitrary: w) (simp_all add: print_def)

lemma displayHeader_eq: "\<exists>t. \<forall>w. displayHeader w = w\<lparr>cout := cout w @ t\<rparr>"
  unfolding displayHeader_def prints_eq by blast

lemma displayMenu_eq: "\<exists>t. \<forall>w. displayMenu w = w\<lparr>cout := cout w @ t\<rparr>"
  unfolding displayMenu_def prints_eq by blast

lemma prompt_eq: "\<exists>t. \<forall>w. prompt w = w\<lparr>cout := cout w @ t\<rparr>"
proof -
  obtain h where h: "\<And>w. displayHeader w = w\<lparr>cout := cout w @ h\<rparr>"
    using displayHeader_eq by blast
  obtain m where m: "\<And>w. displayMenu w = w\<lparr>cout := cout w @ m\<rparr>"
    using displayMenu_eq by blast
  have "\<forall>w. prompt w = w\<lparr>cout := cout w @ (h @ m @ ''\<newline>'' @ utf8 DirectHit @ '' Choose a pattern to explore (1-17): '')\<rparr>"
    unfolding prompt_def print_def h m by simp
  then show ?thesis by blast
qed

lemma prompt_frame:
  "cin (prompt w) = cin w" "cerr (prompt w) = cerr w" "memory (prompt w) = memory w"
  "constructed (prompt w) = constructed w" "entered (prompt w) = entered w"
  "prefix (cout w) (cout (prompt w))"
  using prompt_eq by (auto simp: prefix_def)

lemma farewell_eq: "\<exists>t. \<forall>w. farewell w = w\<lparr>cout := cout w @ t\<rparr>"
  unfolding farewell_def prints_eq by blast

lemma waitForEnter_eq:
  "waitForEnter w = w\<lparr>cout := cout w @ ''\<newline>Press Enter to continue...'',
                       cin := get (ignore_line (clear (cin w)))\<rparr>"
  by (simp add: waitForEnter_def clearInputBuffer_def print_def Let_def)

section \<open>The passes that run no demo\<close>

lemma pass_None:
  assumes "extract_int (cin w) = (None, s)"
  shows "pass e cc w =
           Again cc
             ((prompt w)\<lparr>cout := cout (prompt w) @ utf8 CrossMark
                                 @ '' Invalid input! Please enter a number between 1-17.\<newline>''
                                 @ ''\<newline>Press Enter to continue...'',
                          cin := get (ignore_line (clear (ignore_line (clear s))))\<rparr>)"
  using assms
  by (simp add: pass_def Let_def prompt_frame waitForEnter_eq clearInputBuffer_def print_def)

lemma pass_16:
  assumes "extract_int (cin w) = (Some 16, s)"
  shows "pass e cc w = Again cc (waitForEnter (displayInterviewTips ((prompt w)\<lparr>cin := s\<rparr>)))"
  using assms by (simp add: pass_def Let_def prompt_frame)

lemma pass_17:
  assumes "extract_int (cin w) = (Some 17, s)"
  shows "pass e cc w = Leave (farewell ((prompt w)\<lparr>cin := s\<rparr>))"
  using assms by (simp add: pass_def Let_def prompt_frame)

lemma pass_out_of_range:
  assumes "extract_int (cin w) = (Some c, s)" and "c < 1 \<or> 17 < c"
  shows "pass e cc w =
           Again cc
             ((prompt w)\<lparr>cout := cout (prompt w) @ utf8 CrossMark
                                 @ '' Invalid choice! Please select 1-17.\<newline>''
                                 @ ''\<newline>Press Enter to continue...'',
                          cin := get (ignore_line (clear s))\<rparr>)"
  using assms
  by (auto simp add: pass_def Let_def prompt_frame waitForEnter_eq print_def)

lemma pass_demo:
  assumes "extract_int (cin w) = (Some c, s)" and "1 \<le> c" and "c \<le> 15"
  shows "pass e cc w =
           (case runPatternDemo e c ((prompt w)\<lparr>cin := s\<rparr>) of
              Raises f w' \<Rightarrow> Failed f w'
            | Returns w' \<Rightarrow> ask_continue cc w')"
  using assms by (auto simp add: pass_def Let_def prompt_frame)

section \<open>The demo procedures\<close>

lemmas stmt_defs = enter_def say_def says_def say_or_raise_def print_def prints_eq

lemma digit_chars:
  "char_of (48::nat) = CHR ''0''" "char_of (49::nat) = CHR ''1''" "char_of (50::nat) = CHR ''2''"
  "char_of (51::nat) = CHR ''3''" "char_of (52::nat) = CHR ''4''" "char_of (53::nat) = CHR ''5''"
  "char_of (54::nat) = CHR ''6''" "char_of (55::nat) = CHR ''7''" "char_of (56::nat) = CHR ''8''"
  "char_of (57::nat) = CHR ''9''"
  by code_simp+

lemma show_nat_numeral:
  "show_nat (numeral k) =
     (if numeral k < (10::nat) then [char_of (48 + numeral k :: nat)]
      else show_nat (numeral k div 10) @ [char_of (48 + numeral k mod 10 :: nat)])"
  by (rule show_nat.simps)

lemma show_int_numeral: "show_int (numeral k) = show_nat (numeral k)"
  by (simp add: show_int_def)

lemmas show_numeral = show_int_numeral show_nat_numeral digit_chars

lemma fluent_eval:
  "fluent ss =
     and_then (foldl and_then (Inr \<lparr>request_m = Some HttpRequest_new\<rparr>) ss)
       (\<lambda>b. Inr (request_m b))"
  by (simp add: fluent_def build_def HttpRequestBuilder_new_def)

lemmas setter_defs = method_def url_def header_def body_def timeout_def setMethod_def setUrl_def
  addHeader_def setBody_def setTimeout_def

lemma sublist_skip: "sublist xs ys \<Longrightarrow> sublist xs (zs @ ys)"
  unfolding sublist_def by (metis append.assoc)

lemmas sublist_search = sublist_code sublist_skip

lemma demoBuilder_eq:
  "\<exists>out. (\<forall>w. demoBuilder w
               = Returns (w\<lparr>entered := entered w @ [Builder], cout := cout w @ out\<rparr>))
         \<and> sublist ''Builder'' out"
  apply (rule exI)
  apply (rule conjI)
   apply (rule allI)
   apply (simp add: demoBuilder_def request1_def request2_def fluent_eval HttpRequest_new_def
      setter_defs through_Some and_then_Inr arrow_toString_def stmt_defs toString_def
      header_line_def show_numeral)
  apply (simp add: sublist_search)
  done

lemma demoFactory_eq:
  "\<exists>out. (\<forall>w. demoFactory w
               = Returns (w\<lparr>entered := entered w @ [Factory], cout := cout w @ out\<rparr>))
         \<and> sublist ''Factory'' out"
  apply (rule exI)
  apply (rule conjI)
   apply (rule allI)
   apply (simp add: demoFactory_def pay_with_def createProcessor_def stmt_defs)
  apply (simp add: sublist_search)
  done

lemma absent_demo_eq:
  "absent_demo e d w =
     (case snd (absent e d) of
        None \<Rightarrow> Returns (w\<lparr>entered := entered w @ [d], cout := cout w @ fst (absent e d)\<rparr>)
      | Some x \<Rightarrow>
          Raises (Throw x) (w\<lparr>entered := entered w @ [d], cout := cout w @ fst (absent e d)\<rparr>))"
  by (simp add: absent_demo_def stmt_defs split: option.split)


lemma getInstance_cases:
  "getInstance e w =
     (if memory w (instance_at e) = None
      then (instance_at e,
            w\<lparr>memory := (memory w)(instance_at e \<mapsto> ConfigurationManager_new),
               constructed := Suc (constructed w),
               cout := cout w @ utf8 Wrench @ '' ConfigurationManager initialized\<newline>''\<rparr>)
      else (instance_at e, w))"
  by (auto simp add: getInstance_def construct_def print_def)

lemmas member_defs = setAppName_def setVersion_def setDebugMode_def displayConfig_def
  getAppName_def getVersion_def isDebugMode_def

lemma demoSingleton_eq:
  "\<exists>out w'. demoSingleton e w = Returns w' \<and> entered w' = entered w @ [Singleton]
      \<and> cin w' = cin w \<and> cerr w' = cerr w \<and> cout w' = cout w @ out
      \<and> sublist ''Singleton'' out"
proof (cases "memory w (instance_at e)")
  case None
  show ?thesis
    apply (simp add: demoSingleton_def stmt_defs getInstance_cases None member_defs)
    apply (simp add: sublist_search)
    done
next
  case (Some c)
  show ?thesis
    apply (simp add: demoSingleton_def stmt_defs getInstance_cases Some member_defs)
    apply (simp add: sublist_search)
    done
qed

section \<open>The dispatcher\<close>

lemma menu_order_nth:
  "menu_order ! 0 = Builder" "menu_order ! Suc 0 = Factory" "menu_order ! 2 = Singleton"
  "menu_order ! 3 = Observer" "menu_order ! 4 = Strategy" "menu_order ! 5 = Command"
  "menu_order ! 6 = Decorator" "menu_order ! 7 = Adapter" "menu_order ! 8 = Facade"
  "menu_order ! 9 = TemplateMethod" "menu_order ! 10 = Proxy" "menu_order ! 11 = Visitor"
  "menu_order ! 12 = Memento" "menu_order ! 13 = ChainOfResponsibility" "menu_order ! 14 = State"
  by (simp_all add: menu_order_def)

lemma in_range_cases:
  assumes "1 \<le> c" and "c \<le> 15"
  shows "c \<in> {1, 2, 3, 4, 5, 6, 7, 8, 9, 10, 11, 12, 13, 14, 15 :: int}"
  using assms by simp presburger

lemma switch_in_range:
  assumes "1 \<le> c" and "c \<le> 15"
  shows "switch e c = Some (procedure e (menu_order ! nat (c - 1)))"
  using in_range_cases [OF assms]
  by (auto simp add: switch_def menu_order_nth)

lemma switch_out_of_range:
  assumes "c < 1 \<or> 15 < c"
  shows "switch e c = None"
  using assms by (auto simp add: switch_def)

lemma procedure_absent:
  assumes "d \<notin> {Builder, Factory, Singleton}"
  shows "procedure e d = absent_demo e d"
  using assms
  by (cases d)
    (simp_all add: demoObserver_def demoStrategy_def demoCommand_def demoDecorator_def
      demoAdapter_def demoFacade_def demoTemplateMethod_def demoProxy_def demoVisitor_def
      demoMemento_def demoChainOfResponsibility_def demoState_def)

lemma absent_named:
  assumes "absent_name_their_pattern e" and "d \<notin> {Builder, Factory, Singleton}"
  shows "sublist (patternName d) (fst (absent e d))"
  using assms by (cases d) (simp_all add: absent_name_their_pattern_def menu_order_def)

text \<open>
  What every demo procedure does to the state: it is entered once, leaves the input and the
  error stream alone and appends to the output; it returns, or is left by an exception.
\<close>

lemma procedure_frame:
  "\<exists>w' out. (procedure e d w = Returns w'
                 \<and> (d \<in> {Builder, Factory, Singleton} \<or> snd (absent e d) = None)
               \<or> (\<exists>x. procedure e d w = Raises (Throw x) w'
                       \<and> d \<notin> {Builder, Factory, Singleton} \<and> snd (absent e d) = Some x))
      \<and> entered w' = entered w @ [d] \<and> cin w' = cin w \<and> cerr w' = cerr w
      \<and> cout w' = cout w @ out
      \<and> (d \<in> {Builder, Factory, Singleton} \<longrightarrow> sublist (patternName d) out)
      \<and> (d \<notin> {Builder, Factory, Singleton} \<longrightarrow> out = fst (absent e d))"
proof -
  consider "d = Builder" | "d = Factory" | "d = Singleton" | "d \<notin> {Builder, Factory, Singleton}"
    by auto
  then show ?thesis
  proof cases
    case 1
    obtain out where "\<And>w. demoBuilder w
        = Returns (w\<lparr>entered := entered w @ [Builder], cout := cout w @ out\<rparr>)"
      and "sublist ''Builder'' out"
      using demoBuilder_eq by blast
    then show ?thesis using 1 by auto
  next
    case 2
    obtain out where "\<And>w. demoFactory w
        = Returns (w\<lparr>entered := entered w @ [Factory], cout := cout w @ out\<rparr>)"
      and "sublist ''Factory'' out"
      using demoFactory_eq by blast
    then show ?thesis using 2 by auto
  next
    case 3
    then show ?thesis using demoSingleton_eq [of e w] by auto
  next
    case 4
    show ?thesis
      using 4 by (cases "snd (absent e d)") (simp_all add: procedure_absent absent_demo_eq)
  qed
qed

lemma runPatternDemo_in_range:
  assumes "1 \<le> c" and "c \<le> 15"
  shows "runPatternDemo e c w =
           (case procedure e (menu_order ! nat (c - 1))
                   (w\<lparr>cout := cout w @ ''\<newline>'' @ utf8 Rocket @ '' Running demo...\<newline>\<newline>''\<rparr>) of
              Returns w' \<Rightarrow>
                Returns (w'\<lparr>cout := cout w' @ ''\<newline>'' @ replicate 60 CHR ''='' @ ''\<newline>''
                                   @ utf8 CheckMark @ '' Demo completed successfully!\<newline>''\<rparr>)
            | Raises f w' \<Rightarrow> Raises f w')"
  by (simp add: runPatternDemo_def switch_in_range [OF assms] stmt_defs split: outcome.split)

lemma runPatternDemo_out_of_range:
  assumes "c < 1 \<or> 15 < c"
  shows "runPatternDemo e c w =
           Returns (w\<lparr>cout := cout w @ ''\<newline>'' @ utf8 Rocket @ '' Running demo...\<newline>\<newline>''
                             @ utf8 CrossMark @ '' Invalid pattern selection!\<newline>''\<rparr>)"
  by (simp add: runPatternDemo_def switch_out_of_range [OF assms] stmt_defs)

section \<open>Claims about the dispatcher\<close>

text \<open>
  Claim C1. For every selection from 1 to 15 the dispatcher calls exactly one demo procedure,
  the one of the pattern with that number in the menu, and what that procedure prints holds
  the name of the pattern. For Builder, Factory and Singleton this is proved of the
  procedures in the sources; for the twelve procedures that are not among the sources it is
  the assumption \<open>absent_name_their_pattern\<close>.
\<close>

theorem dispatcher_runs_numbered_demo:
  assumes "1 \<le> c" and "c \<le> 15" and "absent_name_their_pattern e"
  shows "switch e c = Some (procedure e (menu_order ! nat (c - 1)))
     \<and> entered (final (runPatternDemo e c w)) = entered w @ [menu_order ! nat (c - 1)]
     \<and> (\<exists>out rest.
           cout (final (procedure e (menu_order ! nat (c - 1))
                          (print (''\<newline>'' @ utf8 Rocket @ '' Running demo...\<newline>\<newline>'') w)))
             = cout w @ ''\<newline>'' @ utf8 Rocket @ '' Running demo...\<newline>\<newline>'' @ out
           \<and> cout (final (runPatternDemo e c w))
             = cout w @ ''\<newline>'' @ utf8 Rocket @ '' Running demo...\<newline>\<newline>'' @ out @ rest
           \<and> sublist (patternName (menu_order ! nat (c - 1))) out)"
proof -
  let ?d = "menu_order ! nat (c - 1)"
  let ?banner = "''\<newline>'' @ utf8 Rocket @ '' Running demo...\<newline>\<newline>''"
  let ?w1 = "w\<lparr>cout := cout w @ ?banner\<rparr>"
  obtain w' out where
    res: "procedure e ?d ?w1 = Returns w' \<or> (\<exists>x. procedure e ?d ?w1 = Raises (Throw x) w')"
    and ent: "entered w' = entered ?w1 @ [?d]"
    and out: "cout w' = cout ?w1 @ out"
    and known: "?d \<in> {Builder, Factory, Singleton} \<longrightarrow> sublist (patternName ?d) out"
    and absent: "?d \<notin> {Builder, Factory, Singleton} \<longrightarrow> out = fst (absent e ?d)"
    using procedure_frame [of e ?d ?w1] by blast
  have named: "sublist (patternName ?d) out"
    using known absent absent_named [OF assms(3)] by metis
  have run: "runPatternDemo e c w =
           (case procedure e ?d ?w1 of
              Returns w' \<Rightarrow>
                Returns (w'\<lparr>cout := cout w' @ ''\<newline>'' @ replicate 60 CHR ''='' @ ''\<newline>''
                                   @ utf8 CheckMark @ '' Demo completed successfully!\<newline>''\<rparr>)
            | Raises f w' \<Rightarrow> Raises f w')"
    by (rule runPatternDemo_in_range [OF assms(1,2)])
  have "entered (final (runPatternDemo e c w)) = entered w @ [?d]"
    using res ent unfolding run by auto
  moreover have "cout (final (procedure e ?d (print ?banner w))) = cout w @ ?banner @ out"
    using res out unfolding print_def by auto
  moreover have "\<exists>rest. cout (final (runPatternDemo e c w)) = cout w @ ?banner @ out @ rest"
    using res out unfolding run by auto
  ultimately show ?thesis
    using switch_in_range [OF assms(1,2)] named by auto
qed

lemma quiet_env_absent: "snd (absent quiet_env d) = None"
  by (simp add: quiet_env_def)

lemma quiet_env_named: "absent_name_their_pattern quiet_env"
  by (simp add: absent_name_their_pattern_def menu_order_def quiet_env_def sublist_search)

theorem dispatcher_runs_numbered_demo_witness:
  "(1::int) \<le> 4 \<and> (4::int) \<le> 15 \<and> absent_name_their_pattern quiet_env
   \<and> switch quiet_env 4 = Some (procedure quiet_env Observer)
   \<and> entered (final (runPatternDemo quiet_env 4 (start ''''))) = [Observer]
   \<and> (1::int) \<le> 1 \<and> (1::int) \<le> 15
   \<and> switch quiet_env 1 = Some (procedure quiet_env Builder)
   \<and> entered (final (runPatternDemo quiet_env 1 (start ''''))) = [Builder]"
proof -
  have a: "(1::int) \<le> 4" and b: "(4::int) \<le> 15" by simp_all
  have c: "(1::int) \<le> 1" and d: "(1::int) \<le> 15" by simp_all
  from dispatcher_runs_numbered_demo [OF a b quiet_env_named, of "start ''''"]
    dispatcher_runs_numbered_demo [OF c d quiet_env_named, of "start ''''"]
  show ?thesis by (simp add: menu_order_nth quiet_env_named start_def)
qed

section \<open>Reading the standard input\<close>

lemmas stream_defs = extract_int_def extract_string_def sentry_def good_def isspace_def
  isdigit_def digits_value_def clear_def ignore_line_def get_def Let_def

lemma sublist_trans: "sublist xs ys \<Longrightarrow> sublist ys zs \<Longrightarrow> sublist xs zs"
  unfolding sublist_def by (metis append.assoc)

lemma sublist_concat_member:
  assumes "x \<in> set xs" and "sublist y x"
  shows "sublist y (concat xs)"
proof -
  obtain a b where "xs = a @ x # b"
    using assms(1) by (meson split_list)
  then have "sublist x (concat xs)"
    by simp
  with assms(2) show ?thesis
    by (rule sublist_trans)
qed

lemma prints_member:
  assumes "x \<in> set ts" and "sublist y x"
  shows "sublist y (cout (prints ts (start [])))"
  using sublist_concat_member [OF assms] by (simp add: prints_eq start_def)

lemma displayInterviewTips_static:
  "displayInterviewTips w = w\<lparr>cout := cout w @ cout (displayInterviewTips (start []))\<rparr>"
  by (simp add: displayInterviewTips_def prints_eq start_def)

lemma tips_displayed:
  assumes "tip \<in> set tips"
  shows "sublist tip (cout (displayInterviewTips (start [])))"
proof -
  have "''   '' @ tip @ ''\<newline>''
      \<in> set ([''\<newline>'' @ replicate 60 CHR ''='' @ ''\<newline>'',
         utf8 OpenBook @ '' INTERVIEW TIPS & STRATEGIES\<newline>'',
         replicate 60 CHR ''='' @ ''\<newline>'',
         ''\<newline>'' @ utf8 LightBulb @ '' Key Interview Tips:\<newline>'']
        @ map (\<lambda>tip. ''   '' @ tip @ ''\<newline>'') tips
        @ [''\<newline>'' @ utf8 Arrows @ '' Common Follow-up Questions:\<newline>'']
        @ map (\<lambda>i. ''   '' @ show_nat (i + 1) @ ''. '' @ questions ! i @ ''\<newline>'')
            [0 ..< length questions]
        @ [''\<newline>'' @ replicate 60 CHR ''='' @ ''\<newline>''])"
    using assms by (simp only: set_append set_map) blast
  moreover have "sublist tip (''   '' @ tip @ ''\<newline>'')"
    by (rule sublist_appendI)
  ultimately show ?thesis
    unfolding displayInterviewTips_def by (rule prints_member)
qed

lemma questions_displayed:
  assumes "q \<in> set questions"
  shows "sublist q (cout (displayInterviewTips (start [])))"
proof -
  obtain i where i: "i < length questions" "q = questions ! i"
    using assms by (metis in_set_conv_nth)
  let ?line = "''   '' @ show_nat (i + 1) @ ''. '' @ questions ! i @ ''\<newline>''"
  have inner: "?line \<in> (\<lambda>i. ''   '' @ show_nat (i + 1) @ ''. '' @ questions ! i @ ''\<newline>'')
                       ` set [0 ..< length questions]"
  proof (rule image_eqI [where x = i])
    show "?line = ''   '' @ show_nat (i + 1) @ ''. '' @ questions ! i @ ''\<newline>''" ..
    show "i \<in> set [0 ..< length questions]" using i(1) by simp
  qed
  have "?line
      \<in> set ([''\<newline>'' @ replicate 60 CHR ''='' @ ''\<newline>'',
         utf8 OpenBook @ '' INTERVIEW TIPS & STRATEGIES\<newline>'',
         replicate 60 CHR ''='' @ ''\<newline>'',
         ''\<newline>'' @ utf8 LightBulb @ '' Key Interview Tips:\<newline>'']
        @ map (\<lambda>tip. ''   '' @ tip @ ''\<newline>'') tips
        @ [''\<newline>'' @ utf8 Arrows @ '' Common Follow-up Questions:\<newline>'']
        @ map (\<lambda>i. ''   '' @ show_nat (i + 1) @ ''. '' @ questions ! i @ ''\<newline>'')
            [0 ..< length questions]
        @ [''\<newline>'' @ replicate 60 CHR ''='' @ ''\<newline>''])"
    using inner by (simp only: set_append set_map) blast
  moreover have "sublist q ?line"
    unfolding i(2)
    using sublist_appendI [of "questions ! i" "''   '' @ show_nat (i + 1) @ ''. ''" "''\<newline>''"]
    by simp
  ultimately show ?thesis
    unfolding displayInterviewTips_def by (rule prints_member)
qed

section \<open>What every pass prints first\<close>

text \<open>
  Every pass starts by writing the header, the menu and the prompt for a selection, and
  nothing a pass does afterwards takes output back.
\<close>

lemma prompt_screen: "prompt w = w\<lparr>cout := cout w @ screen\<rparr>"
  by (simp add: prompt_def displayHeader_def displayMenu_def prints_eq print_def)

lemma runPatternDemo_cout: "prefix (cout w) (cout (final (runPatternDemo e c w)))"
proof (cases "1 \<le> c \<and> c \<le> 15")
  case True
  let ?w1 = "w\<lparr>cout := cout w @ ''\<newline>'' @ utf8 Rocket @ '' Running demo...\<newline>\<newline>''\<rparr>"
  obtain w' out where
    "procedure e (menu_order ! nat (c - 1)) ?w1 = Returns w'
       \<or> (\<exists>x. procedure e (menu_order ! nat (c - 1)) ?w1 = Raises (Throw x) w')"
    and "cout w' = cout ?w1 @ out"
    using procedure_frame [of e "menu_order ! nat (c - 1)" ?w1] by blast
  then show ?thesis
    using True by (auto simp add: runPatternDemo_in_range prefix_def)
next
  case False
  then have "c < 1 \<or> 15 < c" by auto
  then show ?thesis
    by (simp add: runPatternDemo_out_of_range prefix_def)
qed

lemma ask_continue_cout: "prefix (cout w) (cout (reached (ask_continue cc w)))"
proof -
  obtain t where t: "\<And>w. farewell w = w\<lparr>cout := cout w @ t\<rparr>"
    using farewell_eq by blast
  show ?thesis
    by (simp add: ask_continue_def Let_def print_def t prefix_def case_prod_unfold)
qed

lemma pass_cout: "prefix (cout (prompt w)) (cout (reached (pass e cc w)))"
proof (cases "extract_int (cin w)")
  case (Pair r s)
  show ?thesis
  proof (cases r)
    case None
    then show ?thesis
      using Pair by (simp add: pass_None prefix_def)
  next
    case (Some c)
    then have sel: "extract_int (cin w) = (Some c, s)"
      using Pair by simp
    consider "c = 16" | "c = 17" | "1 \<le> c \<and> c \<le> 15" | "c < 1 \<or> 17 < c"
      by linarith
    then show ?thesis
    proof cases
      case 1
      then show ?thesis
        using sel
        by (simp add: pass_16 waitForEnter_eq prefix_def)
          (subst displayInterviewTips_def, simp add: prints_eq)
    next
      case 2
      obtain t where t: "\<And>w. farewell w = w\<lparr>cout := cout w @ t\<rparr>"
        using farewell_eq by blast
      show ?thesis
        using sel 2 by (simp add: pass_17 t prefix_def)
    next
      case 3
      let ?w0 = "(prompt w)\<lparr>cin := s\<rparr>"
      have a: "prefix (cout (prompt w)) (cout (final (runPatternDemo e c ?w0)))"
        using runPatternDemo_cout [of ?w0 e c] by simp
      show ?thesis
      proof (cases "runPatternDemo e c ?w0")
        case (Returns w1)
        then have "prefix (cout (prompt w)) (cout w1)"
          using a by simp
        moreover have "prefix (cout w1) (cout (reached (ask_continue cc w1)))"
          by (rule ask_continue_cout)
        ultimately show ?thesis
          using sel 3 Returns by (simp add: pass_demo)
      next
        case (Raises f w1)
        then show ?thesis
          using a sel 3 by (simp add: pass_demo)
      qed
    next
      case 4
      then show ?thesis
        using sel by (simp add: pass_out_of_range prefix_def)
    qed
  qed
qed

lemma pass_shows_screen: "prefix (cout w @ screen) (cout (reached (pass e cc w)))"
  using pass_cout [of w e cc] unfolding prompt_screen by simp

text \<open>The loop after a pass that goes round: its next pass starts from the state left.\<close>

lemma run_from_twice:
  "pass e cc w = Again cc' w' \<Longrightarrow>
     run_from e (Suc (Suc n)) cc w
       = (case pass e cc' w' of
            Again cc'' w'' \<Rightarrow> run_from e n cc'' w''
          | Leave w'' \<Rightarrow> Some (Returns w'')
          | Failed f w'' \<Rightarrow> Some (Raises f w''))"
  by simp

section \<open>Claims about the passes that run no demo\<close>

text \<open>
  Claim C6. Selecting 16 displays the interview tips, a text that does not depend on the
  state and holds every tip and every question, waits for Enter and goes on to the next
  pass, which starts by showing the header, the menu and the prompt again; selecting 17
  prints the farewell and leaves the loop. Neither enters a demo procedure.
\<close>

theorem selecting_16_or_17:
  "(\<forall>tip \<in> set tips. sublist tip (cout (displayInterviewTips (start []))))
   \<and> (\<forall>q \<in> set questions. sublist q (cout (displayInterviewTips (start []))))
   \<and> (extract_int (cin w) = (Some 16, s) \<longrightarrow>
        (\<exists>w'. pass e cc w = Again cc w'
           \<and> run_from e (Suc n) cc w = run_from e n cc w'
           \<and> cout w' = cout (prompt w) @ cout (displayInterviewTips (start []))
                          @ ''\<newline>Press Enter to continue...''
           \<and> entered w' = entered w
           \<and> cin w' = get (ignore_line (clear s))
           \<and> run_from e (Suc (Suc n)) cc w
               = (case pass e cc w' of
                    Again cc'' w'' \<Rightarrow> run_from e n cc'' w''
                  | Leave w'' \<Rightarrow> Some (Returns w'')
                  | Failed f w'' \<Rightarrow> Some (Raises f w''))
           \<and> prefix (cout w' @ screen) (cout (reached (pass e cc w')))))
   \<and> (extract_int (cin w) = (Some 17, s) \<longrightarrow>
        (\<exists>w'. pass e cc w = Leave w'
           \<and> run_from e (Suc n) cc w = Some (Returns w')
           \<and> entered w' = entered w
           \<and> cout w' = cout (prompt w) @ farewell_text))
   \<and> cout (prompt w) = cout w @ screen"
proof (intro conjI ballI impI)
  fix tip assume "tip \<in> set tips"
  then show "sublist tip (cout (displayInterviewTips (start [])))"
    by (rule tips_displayed)
next
  fix q assume "q \<in> set questions"
  then show "sublist q (cout (displayInterviewTips (start [])))"
    by (rule questions_displayed)
next
  assume sel: "extract_int (cin w) = (Some 16, s)"
  let ?w' = "waitForEnter (displayInterviewTips ((prompt w)\<lparr>cin := s\<rparr>))"
  have p: "pass e cc w = Again cc ?w'"
    by (rule pass_16 [OF sel])
  have "cout ?w' = cout (prompt w) @ cout (displayInterviewTips (start []))
                          @ ''\<newline>Press Enter to continue...''"
    by (subst displayInterviewTips_static) (simp add: waitForEnter_eq)
  moreover have "entered ?w' = entered w"
    by (subst displayInterviewTips_static) (simp add: waitForEnter_eq prompt_frame)
  moreover have "cin ?w' = get (ignore_line (clear s))"
    by (subst displayInterviewTips_static) (simp add: waitForEnter_eq)
  moreover have "run_from e (Suc n) cc w = run_from e n cc ?w'"
    by (simp add: p)
  moreover have "run_from e (Suc (Suc n)) cc w
               = (case pass e cc ?w' of
                    Again cc'' w'' \<Rightarrow> run_from e n cc'' w''
                  | Leave w'' \<Rightarrow> Some (Returns w'')
                  | Failed f w'' \<Rightarrow> Some (Raises f w''))"
    by (rule run_from_twice [OF p])
  moreover have "prefix (cout ?w' @ screen) (cout (reached (pass e cc ?w')))"
    by (rule pass_shows_screen)
  ultimately show "\<exists>w'. pass e cc w = Again cc w'
           \<and> run_from e (Suc n) cc w = run_from e n cc w'
           \<and> cout w' = cout (prompt w) @ cout (displayInterviewTips (start []))
                          @ ''\<newline>Press Enter to continue...''
           \<and> entered w' = entered w
           \<and> cin w' = get (ignore_line (clear s))
           \<and> run_from e (Suc (Suc n)) cc w
               = (case pass e cc w' of
                    Again cc'' w'' \<Rightarrow> run_from e n cc'' w''
                  | Leave w'' \<Rightarrow> Some (Returns w'')
                  | Failed f w'' \<Rightarrow> Some (Raises f w''))
           \<and> prefix (cout w' @ screen) (cout (reached (pass e cc w')))"
    using p by blast
next
  assume sel: "extract_int (cin w) = (Some 17, s)"
  have p: "pass e cc w = Leave (farewell ((prompt w)\<lparr>cin := s\<rparr>))"
    by (rule pass_17 [OF sel])
  then show "\<exists>w'. pass e cc w = Leave w'
           \<and> run_from e (Suc n) cc w = Some (Returns w')
           \<and> entered w' = entered w
           \<and> cout w' = cout (prompt w) @ farewell_text"
    by (simp add: farewell_def prints_eq prompt_frame)
next
  show "cout (prompt w) = cout w @ screen"
    by (subst prompt_screen) simp
qed

theorem selecting_16_or_17_witness:
  "(\<exists>s. extract_int (cin (start ''16\<newline>\<newline>'')) = (Some 16, s))
   \<and> (\<exists>w'. pass quiet_env [] (start ''16\<newline>\<newline>'') = Again [] w' \<and> entered w' = [])
   \<and> (\<exists>s. extract_int (cin (start '' 17'')) = (Some 17, s))
   \<and> (\<exists>w'. run_from quiet_env (Suc 0) [] (start '' 17'') = Some (Returns w') \<and> entered w' = [])
   \<and> ''What are the memory implications?'' \<in> set questions
   \<and> sublist ''What are the memory implications?'' (cout (displayInterviewTips (start [])))
   \<and> utf8 Rocket @ '' Mention performance implications and alternatives'' \<in> set tips
   \<and> sublist (utf8 Rocket @ '' Mention performance implications and alternatives'')
        (cout (displayInterviewTips (start [])))
   \<and> (\<exists>s. extract_int (cin (start ''16\<newline>\<newline>17'')) = (Some 16, s))
   \<and> (\<exists>w''. run_from quiet_env (Suc (Suc 0)) [] (start ''16\<newline>\<newline>17'') = Some (Returns w'')
          \<and> cout w'' = screen @ cout (displayInterviewTips (start []))
                          @ ''\<newline>Press Enter to continue...'' @ screen @ farewell_text
          \<and> entered w'' = [])"
proof -
  obtain s16 where s16: "extract_int (cin (start ''16\<newline>\<newline>'')) = (Some 16, s16)"
    by (simp add: stream_defs start_def)
  obtain s17 where s17: "extract_int (cin (start '' 17'')) = (Some 17, s17)"
    by (simp add: stream_defs start_def)
  have q: "''What are the memory implications?'' \<in> set questions"
    by (simp add: questions_def)
  have e0: "entered (start ''16\<newline>\<newline>'') = []" "entered (start '' 17'') = []"
    by (simp_all add: start_def)
  from selecting_16_or_17 [of "start ''16\<newline>\<newline>''" s16 quiet_env "[]" 0] s16
  have a: "\<exists>w'. pass quiet_env [] (start ''16\<newline>\<newline>'') = Again [] w' \<and> entered w' = []"
    unfolding e0 by blast
  from selecting_16_or_17 [of "start '' 17''" s17 quiet_env "[]" 0] s17
  have b: "\<exists>w'. run_from quiet_env (Suc 0) [] (start '' 17'') = Some (Returns w') \<and> entered w' = []"
    unfolding e0 by blast
  from selecting_16_or_17 [of "start []" s16 quiet_env "[]" 0] q
  have c: "sublist ''What are the memory implications?'' (cout (displayInterviewTips (start [])))"
    by blast
  have t: "utf8 Rocket @ '' Mention performance implications and alternatives'' \<in> set tips"
    by (simp add: tips_def)
  from selecting_16_or_17 [of "start []" s16 quiet_env "[]" 0] t
  have d: "sublist (utf8 Rocket @ '' Mention performance implications and alternatives'')
             (cout (displayInterviewTips (start [])))"
    by blast
  let ?in = "''16\<newline>\<newline>17''"
  let ?s = "\<lparr>buf = ''\<newline>\<newline>17'', failbit = False, eofbit = False\<rparr>"
  let ?s2 = "\<lparr>buf = [], failbit = False, eofbit = True\<rparr>"
  have s: "extract_int (cin (start ?in)) = (Some 16, ?s)"
    by (simp add: stream_defs start_def)
  have e1: "entered (start ?in) = []" "cout (start ?in) = []"
    by (simp_all add: start_def)
  from selecting_16_or_17 [of "start ?in" ?s quiet_env "[]" 0] s
  obtain w' where out: "cout w' = cout (prompt (start ?in)) @ cout (displayInterviewTips (start []))
                          @ ''\<newline>Press Enter to continue...''"
    and here: "cout (prompt (start ?in)) = cout (start ?in) @ screen"
    and ent: "entered w' = []"
    and cin: "cin w' = get (ignore_line (clear ?s))"
    and twice: "run_from quiet_env (Suc (Suc 0)) [] (start ?in)
               = (case pass quiet_env [] w' of
                    Again cc'' w'' \<Rightarrow> run_from quiet_env 0 cc'' w''
                  | Leave w'' \<Rightarrow> Some (Returns w'')
                  | Failed f w'' \<Rightarrow> Some (Raises f w''))"
    unfolding e1 by blast
  have cin': "cin w' = \<lparr>buf = ''17'', failbit = False, eofbit = False\<rparr>"
    unfolding cin by (simp add: get_def ignore_line_def clear_def sentry_def good_def)
  have s2: "extract_int (cin w') = (Some 17, ?s2)"
    unfolding cin' by (simp add: stream_defs)
  let ?w'' = "farewell ((prompt w')\<lparr>cin := ?s2\<rparr>)"
  have p2: "pass quiet_env [] w' = Leave ?w''"
    by (rule pass_17 [OF s2])
  have run2: "run_from quiet_env (Suc (Suc 0)) [] (start ?in) = Some (Returns ?w'')"
    unfolding twice p2 by simp
  have out1: "cout w' = screen @ cout (displayInterviewTips (start []))
                          @ ''\<newline>Press Enter to continue...''"
    unfolding out here e1 by simp
  have out2: "cout ?w'' = cout w' @ screen @ farewell_text"
    by (simp add: prompt_screen farewell_def prints_eq)
  have ent2: "entered ?w'' = []"
    by (simp add: prompt_screen farewell_def prints_eq ent)
  have f: "\<exists>w''. run_from quiet_env (Suc (Suc 0)) [] (start ?in) = Some (Returns w'')
          \<and> cout w'' = screen @ cout (displayInterviewTips (start []))
                          @ ''\<newline>Press Enter to continue...'' @ screen @ farewell_text
          \<and> entered w'' = []"
    using run2 out2 ent2 unfolding out1 by simp
  show ?thesis using s16 s17 a b c q t d s f by blast
qed

text \<open>
  Claim C8. For a selection outside 1 to 17 the loop prints the invalid-choice message
  after the menu, enters no demo procedure, leaves the singleton, the error stream and
  \<open>continueChoice\<close> as they were, waits for Enter and goes round: the outcome of the pass is
  never a failure or the end of the loop, the loop continues with the next pass from the
  state left, and that pass starts by showing the header, the menu and the prompt again.
  \<open>runPatternDemo\<close> itself, given such a number, prints its own message and enters no demo
  procedure either.
\<close>

theorem invalid_choice_reprompts:
  assumes "extract_int (cin w) = (Some c, s)" and "c < 1 \<or> 17 < c"
  shows "\<exists>w'. pass e cc w = Again cc w'
           \<and> run_from e (Suc n) cc w = run_from e n cc w'
           \<and> cout w' = cout (prompt w) @ utf8 CrossMark
                          @ '' Invalid choice! Please select 1-17.\<newline>''
                          @ ''\<newline>Press Enter to continue...''
           \<and> entered w' = entered w \<and> memory w' = memory w
           \<and> constructed w' = constructed w \<and> cerr w' = cerr w
           \<and> runPatternDemo e c w
               = Returns (w\<lparr>cout := cout w @ ''\<newline>'' @ utf8 Rocket @ '' Running demo...\<newline>\<newline>''
                                     @ utf8 CrossMark @ '' Invalid pattern selection!\<newline>''\<rparr>)
           \<and> cout (prompt w) = cout w @ screen
           \<and> cin w' = get (ignore_line (clear s))
           \<and> run_from e (Suc (Suc n)) cc w
               = (case pass e cc w' of
                    Again cc'' w'' \<Rightarrow> run_from e n cc'' w''
                  | Leave w'' \<Rightarrow> Some (Returns w'')
                  | Failed f w'' \<Rightarrow> Some (Raises f w''))
           \<and> prefix (cout w' @ screen) (cout (reached (pass e cc w')))"
proof -
  let ?w' = "(prompt w)\<lparr>cout := cout (prompt w) @ utf8 CrossMark
                                 @ '' Invalid choice! Please select 1-17.\<newline>''
                                 @ ''\<newline>Press Enter to continue...'',
                          cin := get (ignore_line (clear s))\<rparr>"
  have p: "pass e cc w = Again cc ?w'"
    by (rule pass_out_of_range [OF assms])
  have "c < 1 \<or> 15 < c"
    using assms(2) by auto
  then have d: "runPatternDemo e c w
               = Returns (w\<lparr>cout := cout w @ ''\<newline>'' @ utf8 Rocket @ '' Running demo...\<newline>\<newline>''
                                     @ utf8 CrossMark @ '' Invalid pattern selection!\<newline>''\<rparr>)"
    by (rule runPatternDemo_out_of_range)
  have twice: "run_from e (Suc (Suc n)) cc w
               = (case pass e cc ?w' of
                    Again cc'' w'' \<Rightarrow> run_from e n cc'' w''
                  | Leave w'' \<Rightarrow> Some (Returns w'')
                  | Failed f w'' \<Rightarrow> Some (Raises f w''))"
    by (rule run_from_twice [OF p])
  have once: "run_from e (Suc n) cc w = run_from e n cc ?w'"
    by (simp add: p)
  have again: "prefix (cout ?w' @ screen) (cout (reached (pass e cc ?w')))"
    by (rule pass_shows_screen)
  have here: "cout (prompt w) = cout w @ screen"
    by (subst prompt_screen) simp
  have frame: "cout ?w' = cout (prompt w) @ utf8 CrossMark
                          @ '' Invalid choice! Please select 1-17.\<newline>''
                          @ ''\<newline>Press Enter to continue...''"
    "entered ?w' = entered w" "memory ?w' = memory w" "constructed ?w' = constructed w"
    "cerr ?w' = cerr w" "cin ?w' = get (ignore_line (clear s))"
    by (simp_all add: prompt_frame)
  show ?thesis
    using p once frame d here twice again by blast
qed

theorem invalid_choice_reprompts_witness:
  "(\<exists>s. extract_int (cin (start ''42\<newline>\<newline>17'')) = (Some 42, s))
   \<and> ((42::int) < 1 \<or> 17 < (42::int))
   \<and> (\<exists>w'. pass quiet_env [] (start ''42\<newline>\<newline>17'') = Again [] w' \<and> entered w' = []
          \<and> constructed w' = 0
          \<and> cout w' = screen @ utf8 CrossMark @ '' Invalid choice! Please select 1-17.\<newline>''
                         @ ''\<newline>Press Enter to continue...''
          \<and> buf (cin w') = ''17'')
   \<and> (\<exists>w''. run_from quiet_env (Suc (Suc 0)) [] (start ''42\<newline>\<newline>17'') = Some (Returns w'')
          \<and> cout w'' = screen @ utf8 CrossMark @ '' Invalid choice! Please select 1-17.\<newline>''
                          @ ''\<newline>Press Enter to continue...'' @ screen @ farewell_text
          \<and> entered w'' = [])"
proof -
  let ?in = "''42\<newline>\<newline>17''"
  let ?s = "\<lparr>buf = ''\<newline>\<newline>17'', failbit = False, eofbit = False\<rparr>"
  let ?s2 = "\<lparr>buf = [], failbit = False, eofbit = True\<rparr>"
  have s: "extract_int (cin (start ?in)) = (Some 42, ?s)"
    by (simp add: stream_defs start_def)
  have r: "(42::int) < 1 \<or> 17 < (42::int)" by simp
  have e0: "entered (start ?in) = []" "constructed (start ?in) = 0" "cout (start ?in) = []"
    by (simp_all add: start_def)
  from invalid_choice_reprompts [OF s r, of quiet_env "[]" 0]
  obtain w' where p: "pass quiet_env [] (start ?in) = Again [] w'"
    and out: "cout w' = cout (prompt (start ?in)) @ utf8 CrossMark
                  @ '' Invalid choice! Please select 1-17.\<newline>''
                  @ ''\<newline>Press Enter to continue...''"
    and here: "cout (prompt (start ?in)) = cout (start ?in) @ screen"
    and ent: "entered w' = []" and con: "constructed w' = 0"
    and cin: "cin w' = get (ignore_line (clear ?s))"
    and twice: "run_from quiet_env (Suc (Suc 0)) [] (start ?in)
               = (case pass quiet_env [] w' of
                    Again cc'' w'' \<Rightarrow> run_from quiet_env 0 cc'' w''
                  | Leave w'' \<Rightarrow> Some (Returns w'')
                  | Failed f w'' \<Rightarrow> Some (Raises f w''))"
    unfolding e0 by blast
  have cin': "cin w' = \<lparr>buf = ''17'', failbit = False, eofbit = False\<rparr>"
    unfolding cin by (simp add: get_def ignore_line_def clear_def sentry_def good_def)
  have s2: "extract_int (cin w') = (Some 17, ?s2)"
    unfolding cin' by (simp add: stream_defs)
  let ?w'' = "farewell ((prompt w')\<lparr>cin := ?s2\<rparr>)"
  have p2: "pass quiet_env [] w' = Leave ?w''"
    by (rule pass_17 [OF s2])
  have run2: "run_from quiet_env (Suc (Suc 0)) [] (start ?in) = Some (Returns ?w'')"
    unfolding twice p2 by simp
  have out1: "cout w' = screen @ utf8 CrossMark @ '' Invalid choice! Please select 1-17.\<newline>''
                         @ ''\<newline>Press Enter to continue...''"
    unfolding out here e0 by simp
  have out2: "cout ?w'' = cout w' @ screen @ farewell_text"
    by (simp add: prompt_screen farewell_def prints_eq)
  have ent2: "entered ?w'' = []"
    by (simp add: prompt_screen farewell_def prints_eq ent)
  have a: "\<exists>w'. pass quiet_env [] (start ?in) = Again [] w' \<and> entered w' = []
          \<and> constructed w' = 0
          \<and> cout w' = screen @ utf8 CrossMark @ '' Invalid choice! Please select 1-17.\<newline>''
                         @ ''\<newline>Press Enter to continue...''
          \<and> buf (cin w') = ''17''"
    using p ent con out1 cin' by simp
  have b: "\<exists>w''. run_from quiet_env (Suc (Suc 0)) [] (start ?in) = Some (Returns w'')
          \<and> cout w'' = screen @ utf8 CrossMark @ '' Invalid choice! Please select 1-17.\<newline>''
                          @ ''\<newline>Press Enter to continue...'' @ screen @ farewell_text
          \<and> entered w'' = []"
    using run2 out2 ent2 unfolding out1 by simp
  show ?thesis
    using s r a b by blast
qed

section \<open>The passes that run a demo\<close>

lemma runPatternDemo_frame:
  assumes "1 \<le> c" and "c \<le> 15"
  shows "\<exists>w'. (runPatternDemo e c w = Returns w'
               \<and> (menu_order ! nat (c - 1) \<in> {Builder, Factory, Singleton}
                  \<or> snd (absent e (menu_order ! nat (c - 1))) = None)
             \<or> (\<exists>x. runPatternDemo e c w = Raises (Throw x) w'
                     \<and> snd (absent e (menu_order ! nat (c - 1))) = Some x))
           \<and> cin w' = cin w \<and> cerr w' = cerr w
           \<and> entered w' = entered w @ [menu_order ! nat (c - 1)]"
proof -
  let ?d = "menu_order ! nat (c - 1)"
  let ?w1 = "w\<lparr>cout := cout w @ ''\<newline>'' @ utf8 Rocket @ '' Running demo...\<newline>\<newline>''\<rparr>"
  obtain w' where
    "procedure e ?d ?w1 = Returns w' \<and> (?d \<in> {Builder, Factory, Singleton} \<or> snd (absent e ?d) = None)
     \<or> (\<exists>x. procedure e ?d ?w1 = Raises (Throw x) w' \<and> ?d \<notin> {Builder, Factory, Singleton}
             \<and> snd (absent e ?d) = Some x)"
    and "entered w' = entered ?w1 @ [?d]" and "cin w' = cin ?w1" and "cerr w' = cerr ?w1"
    using procedure_frame [of e ?d ?w1] by blast
  then show ?thesis
    unfolding runPatternDemo_in_range [OF assms] by auto
qed

lemma ask_continue_answer:
  assumes "extract_string (cin w) = (Some r, s)"
  shows "ask_continue cc w =
           (if r \<in> {''y'', ''Y'', ''yes'', ''Yes''}
            then Again r ((print (''\<newline>'' @ utf8 Arrows
                                   @ '' Would you like to explore another pattern? (y/n): '') w)
                            \<lparr>cin := s\<rparr>)
            else Leave (farewell
                          ((print (''\<newline>'' @ utf8 Arrows
                                   @ '' Would you like to explore another pattern? (y/n): '') w)
                             \<lparr>cin := s\<rparr>)))"
  using assms by (simp add: ask_continue_def print_def Let_def)

text \<open>
  A pass with a selection from 1 to 15: the demo of that number is entered and either is
  left by the exception \<open>absent\<close> names for it, or returns, and then the answer decides.
\<close>

lemma pass_demo_answer:
  assumes "extract_int (cin w) = (Some c, s)" and "1 \<le> c" and "c \<le> 15"
    and "extract_string s = (Some r, s')"
  shows "(\<exists>x w'. pass e cc w = Failed (Throw x) w'
              \<and> snd (absent e (menu_order ! nat (c - 1))) = Some x)
         \<or> ((menu_order ! nat (c - 1) \<in> {Builder, Factory, Singleton}
               \<or> snd (absent e (menu_order ! nat (c - 1))) = None)
             \<and> (\<exists>w'. pass e cc w
                       = (if r \<in> {''y'', ''Y'', ''yes'', ''Yes''} then Again r w' else Leave w')
                     \<and> entered w' = entered w @ [menu_order ! nat (c - 1)]))"
proof -
  let ?w0 = "(prompt w)\<lparr>cin := s\<rparr>"
  obtain t where t: "\<And>w. farewell w = w\<lparr>cout := cout w @ t\<rparr>"
    using farewell_eq by blast
  obtain w1 where
    res: "runPatternDemo e c ?w0 = Returns w1
               \<and> (menu_order ! nat (c - 1) \<in> {Builder, Factory, Singleton}
                  \<or> snd (absent e (menu_order ! nat (c - 1))) = None)
          \<or> (\<exists>x. runPatternDemo e c ?w0 = Raises (Throw x) w1
                  \<and> snd (absent e (menu_order ! nat (c - 1))) = Some x)"
    and cin: "cin w1 = cin ?w0"
    and ent: "entered w1 = entered ?w0 @ [menu_order ! nat (c - 1)]"
    using runPatternDemo_frame [OF assms(2,3), of e ?w0] by blast
  have ans: "extract_string (cin w1) = (Some r, s')"
    using assms(4) cin by simp
  from res show ?thesis
  proof
    assume "runPatternDemo e c ?w0 = Returns w1
               \<and> (menu_order ! nat (c - 1) \<in> {Builder, Factory, Singleton}
                  \<or> snd (absent e (menu_order ! nat (c - 1))) = None)"
    then show ?thesis
      using ent
      by (auto simp add: pass_demo [OF assms(1-3)] ask_continue_answer [OF ans] t print_def
          prompt_frame)
  next
    assume "\<exists>x. runPatternDemo e c ?w0 = Raises (Throw x) w1
                  \<and> snd (absent e (menu_order ! nat (c - 1))) = Some x"
    then show ?thesis
      by (auto simp add: pass_demo [OF assms(1-3)])
  qed
qed

section \<open>Discarding input\<close>

lemma good_clear: "good (clear s)" and buf_clear: "buf (clear s) = buf s"
  by (simp_all add: good_def clear_def)

lemma buf_ignore_line:
  "buf (ignore_line s) =
     (if good s then drop 1 (dropWhile (\<lambda>c. c \<noteq> CHR 0x0A) (buf s)) else buf s)"
  by (cases "dropWhile (\<lambda>c. c \<noteq> CHR 0x0A) (buf s)") (simp_all add: ignore_line_def sentry_def del: dropWhile_eq_Nil_conv)

lemma suffix_ignore_line: "suffix (buf (ignore_line s)) (buf s)"
proof -
  have "suffix (drop 1 (dropWhile (\<lambda>c. c \<noteq> CHR 0x0A) (buf s))) (buf s)"
    by (meson suffix_drop suffix_dropWhile suffix_order.trans)
  then show ?thesis
    by (simp add: buf_ignore_line)
qed

lemma suffix_get: "suffix (buf (get s)) (buf s)"
  by (auto simp add: get_def sentry_def suffix_def split: list.split)

lemma suffix_discard: "suffix (buf (get (ignore_line (clear s)))) (buf s)"
  by (metis buf_clear suffix_get suffix_ignore_line suffix_order.trans)

text \<open>
  A failed extraction of a number has read a sign and digits at most, so the end of the
  line is still ahead.
\<close>

lemma extract_int_None:
  assumes "good s0" and "dropWhile isspace (buf s0) = c # rest"
    and "extract_int s0 = (None, s)"
  shows "\<exists>pre. c # rest = pre @ buf s \<and> CHR 0x0A \<notin> set pre"
proof -
  define r1 where "r1 = (if c = CHR ''-'' \<or> c = CHR ''+'' then rest else c # rest)"
  define sign where "sign = (if c = CHR ''-'' \<or> c = CHR ''+'' then [c] else [])"
  have split: "c # rest = sign @ takeWhile isdigit r1 @ dropWhile isdigit r1"
    by (simp add: r1_def sign_def)
  have "buf s = dropWhile isdigit r1"
    using assms
    by (auto simp add: extract_int_def sentry_def Let_def r1_def split: if_splits)
  moreover have "CHR 0x0A \<notin> set (sign @ takeWhile isdigit r1)"
    by (auto simp add: sign_def isdigit_def dest!: set_takeWhileD)
  ultimately show ?thesis
    using split by (metis append.assoc)
qed

lemma dropWhile_past:
  assumes "x \<notin> set pre"
  shows "dropWhile (\<lambda>y. y \<noteq> x) (pre @ ys) = dropWhile (\<lambda>y. y \<noteq> x) ys"
  using assms by (induction pre) auto

lemma length_drop_line:
  assumes "xs \<noteq> []"
  shows "length (drop 1 (dropWhile P xs)) < length xs"
proof -
  have "length (dropWhile P xs) \<le> length xs"
    by (rule length_dropWhile_le)
  moreover have "0 < length xs"
    using assms by simp
  ultimately show ?thesis
    by (cases "dropWhile P xs") (simp_all del: dropWhile_eq_Nil_conv)
qed

text \<open>
  Characters that start with neither a digit nor a sign are not read as a number.
\<close>

lemma not_a_numeral_fails:
  assumes "good s0" and "dropWhile isspace (buf s0) = c # rest"
    and "\<not> isdigit c" and "c \<noteq> CHR ''-''" and "c \<noteq> CHR ''+''"
  shows "fst (extract_int s0) = None"
  using assms by (simp add: extract_int_def sentry_def Let_def)

text \<open>
  What \<open>waitForEnter\<close> and the two extractions leave behind: a stream that still has
  characters is in good state.
\<close>

lemma discard_readable:
  "buf (get (ignore_line (clear x))) \<noteq> [] \<Longrightarrow> good (get (ignore_line (clear x)))"
  by (cases "dropWhile (\<lambda>c. c \<noteq> CHR 0x0A) (buf x)")
    (auto simp add: get_def ignore_line_def clear_def sentry_def good_def
      simp del: dropWhile_eq_Nil_conv split: list.splits if_splits)

lemma extract_int_readable:
  assumes "extract_int s0 = (Some c, s)" and "buf s \<noteq> []"
  shows "good s"
  using assms
  by (auto simp add: extract_int_def sentry_def good_def Let_def case_prod_unfold
      split: list.splits if_splits)

lemma extract_string_readable:
  assumes "buf s \<noteq> [] \<longrightarrow> good s" and "buf (snd (extract_string s)) \<noteq> []"
  shows "good (snd (extract_string s))"
  using assms
  by (cases "dropWhile isspace (buf s)")
    (auto simp add: extract_string_def sentry_def good_def Let_def
      simp del: dropWhile_eq_Nil_conv split: list.splits if_splits)

text \<open>
  Whenever the loop goes round with characters still ahead, the stream is in good state:
  together with \<open>start\<close>, whose stream is good, this is the state of the stream the claim
  about malformed input asks for.
\<close>

lemma head_of_pass_readable:
  assumes "pass e cc w = Again cc' w'" and "buf (cin w') \<noteq> []"
  shows "good (cin w')"
proof (cases "extract_int (cin w)")
  case (Pair r s)
  show ?thesis
  proof (cases r)
    case None
    then show ?thesis
      using Pair assms discard_readable [of "ignore_line (clear s)"]
      by (auto simp add: pass_None)
  next
    case (Some c)
    then have sel: "extract_int (cin w) = (Some c, s)"
      using Pair by simp
    consider "c = 16" | "c = 17" | "1 \<le> c \<and> c \<le> 15" | "c < 1 \<or> 17 < c"
      by linarith
    then show ?thesis
    proof cases
      case 1
      then show ?thesis
        using sel assms discard_readable [of s]
        by (subst (asm) pass_16, simp, subst (asm) displayInterviewTips_def)
          (auto simp add: waitForEnter_eq prints_eq)
    next
      case 2
      then show ?thesis
        using sel assms by (simp add: pass_17)
    next
      case 3
      let ?w0 = "(prompt w)\<lparr>cin := s\<rparr>"
      obtain w1 where res: "runPatternDemo e c ?w0 = Returns w1
            \<or> (\<exists>x. runPatternDemo e c ?w0 = Raises (Throw x) w1)"
        and cin: "cin w1 = s"
        using runPatternDemo_frame [of c e ?w0] 3 by auto
      have ask: "ask_continue cc w1 = Again cc' w'"
        using res assms(1) sel 3 by (auto simp add: pass_demo)
      then have "cin w' = snd (extract_string s)"
        by (auto simp add: ask_continue_def Let_def case_prod_unfold cin print_def
            split: if_splits)
      moreover have "buf s \<noteq> [] \<longrightarrow> good s"
        using extract_int_readable [OF sel] by blast
      ultimately show ?thesis
        using assms(2) extract_string_readable by simp
    next
      case 4
      then show ?thesis
        using sel assms discard_readable [of s] by (auto simp add: pass_out_of_range)
    qed
  qed
qed

section \<open>Claims about malformed input\<close>

text \<open>
  Claim C7, as amended. When \<open>std::cin >> choice\<close> fails although the stream is in good
  state and a character other than white space is ahead (after an optional sign there is
  no digit, or the number does not fit an \<open>int\<close>), the loop prints the invalid-input message
  after the menu, enters no demo procedure, discards the rest of the line the malformed
  input is on, and goes round with strictly less input ahead: the loop continues with the
  next pass from the state left, and that pass starts by showing the header, the menu and
  the prompt again.
\<close>

theorem malformed_input_discarded:
  assumes "good (cin w)" and "dropWhile isspace (buf (cin w)) = c # rest"
    and "fst (extract_int (cin w)) = None"
  shows "\<exists>w'. pass e cc w = Again cc w'
           \<and> run_from e (Suc n) cc w = run_from e n cc w'
           \<and> cout w' = cout (prompt w) @ utf8 CrossMark
                          @ '' Invalid input! Please enter a number between 1-17.\<newline>''
                          @ ''\<newline>Press Enter to continue...''
           \<and> entered w' = entered w \<and> memory w' = memory w
           \<and> constructed w' = constructed w \<and> cerr w' = cerr w
           \<and> suffix (buf (cin w')) (drop 1 (dropWhile (\<lambda>x. x \<noteq> CHR 0x0A) (c # rest)))
           \<and> length (buf (cin w')) < length (buf (cin w))
           \<and> cout (prompt w) = cout w @ screen
           \<and> cin w' = get (ignore_line (clear (ignore_line (clear (snd (extract_int (cin w)))))))
           \<and> run_from e (Suc (Suc n)) cc w
               = (case pass e cc w' of
                    Again cc'' w'' \<Rightarrow> run_from e n cc'' w''
                  | Leave w'' \<Rightarrow> Some (Returns w'')
                  | Failed f w'' \<Rightarrow> Some (Raises f w''))
           \<and> prefix (cout w' @ screen) (cout (reached (pass e cc w')))"
proof -
  obtain s where s: "extract_int (cin w) = (None, s)"
    using assms(3) by (cases "extract_int (cin w)") simp
  obtain pre where pre: "c # rest = pre @ buf s" "CHR 0x0A \<notin> set pre"
    using extract_int_None [OF assms(1,2) s] by blast
  let ?line = "drop 1 (dropWhile (\<lambda>x. x \<noteq> CHR 0x0A) (c # rest))"
  let ?cin = "get (ignore_line (clear (ignore_line (clear s))))"
  let ?w' = "(prompt w)\<lparr>cout := cout (prompt w) @ utf8 CrossMark
                                 @ '' Invalid input! Please enter a number between 1-17.\<newline>''
                                 @ ''\<newline>Press Enter to continue...'',
                          cin := ?cin\<rparr>"
  have first: "buf (ignore_line (clear s)) = ?line"
    by (simp add: buf_ignore_line good_clear buf_clear pre dropWhile_past)
  have discarded: "suffix (buf ?cin) ?line"
    using suffix_discard [of "ignore_line (clear s)"] by (simp add: first)
  have "length ?line < length (c # rest)"
    by (rule length_drop_line) simp
  moreover have "length (c # rest) \<le> length (buf (cin w))"
    by (metis assms(2) length_dropWhile_le)
  moreover have "length (buf ?cin) \<le> length ?line"
    using discarded by (rule suffix_length_le)
  ultimately have shorter: "length (buf ?cin) < length (buf (cin w))"
    by linarith
  have p: "pass e cc w = Again cc ?w'"
    by (rule pass_None [OF s])
  have twice: "run_from e (Suc (Suc n)) cc w
               = (case pass e cc ?w' of
                    Again cc'' w'' \<Rightarrow> run_from e n cc'' w''
                  | Leave w'' \<Rightarrow> Some (Returns w'')
                  | Failed f w'' \<Rightarrow> Some (Raises f w''))"
    by (rule run_from_twice [OF p])
  have once: "run_from e (Suc n) cc w = run_from e n cc ?w'"
    by (simp add: p)
  have again: "prefix (cout ?w' @ screen) (cout (reached (pass e cc ?w')))"
    by (rule pass_shows_screen)
  have here: "cout (prompt w) = cout w @ screen"
    by (subst prompt_screen) simp
  have frame: "cout ?w' = cout (prompt w) @ utf8 CrossMark
                          @ '' Invalid input! Please enter a number between 1-17.\<newline>''
                          @ ''\<newline>Press Enter to continue...''"
    "entered ?w' = entered w" "memory ?w' = memory w" "constructed ?w' = constructed w"
    "cerr ?w' = cerr w"
    "cin ?w' = get (ignore_line (clear (ignore_line (clear (snd (extract_int (cin w)))))))"
    "suffix (buf (cin ?w')) ?line" "length (buf (cin ?w')) < length (buf (cin w))"
    using discarded shorter by (simp_all add: prompt_frame s)
  show ?thesis
    using p once frame here twice again by blast
qed

theorem malformed_input_discarded_witness:
  "good (cin (start ''abc 1\<newline>\<newline>\<newline>17''))
   \<and> dropWhile isspace (buf (cin (start ''abc 1\<newline>\<newline>\<newline>17''))) = CHR ''a'' # ''bc 1\<newline>\<newline>\<newline>17''
   \<and> fst (extract_int (cin (start ''abc 1\<newline>\<newline>\<newline>17''))) = None
   \<and> (\<exists>w'. pass quiet_env [] (start ''abc 1\<newline>\<newline>\<newline>17'') = Again [] w'
          \<and> entered w' = []
          \<and> cout w' = screen @ utf8 CrossMark
                         @ '' Invalid input! Please enter a number between 1-17.\<newline>''
                         @ ''\<newline>Press Enter to continue...''
          \<and> buf (cin w') = ''17'')
   \<and> (\<exists>w''. run_from quiet_env (Suc (Suc 0)) [] (start ''abc 1\<newline>\<newline>\<newline>17'') = Some (Returns w'')
          \<and> cout w'' = screen @ utf8 CrossMark
                          @ '' Invalid input! Please enter a number between 1-17.\<newline>''
                          @ ''\<newline>Press Enter to continue...'' @ screen @ farewell_text
          \<and> entered w'' = [])"
proof -
  let ?in = "''abc 1\<newline>\<newline>\<newline>17''"
  let ?s2 = "\<lparr>buf = [], failbit = False, eofbit = True\<rparr>"
  have a: "good (cin (start ?in))"
    by (simp add: start_def good_def)
  have b: "dropWhile isspace (buf (cin (start ?in))) = CHR ''a'' # ''bc 1\<newline>\<newline>\<newline>17''"
    by (simp add: start_def isspace_def)
  have c: "fst (extract_int (cin (start ?in))) = None"
    by (simp add: stream_defs start_def)
  have e0: "entered (start ?in) = []" "cout (start ?in) = []"
    by (simp_all add: start_def)
  from malformed_input_discarded [OF a b c, of quiet_env "[]" 0]
  obtain w' where p: "pass quiet_env [] (start ?in) = Again [] w'"
    and out: "cout w' = cout (prompt (start ?in)) @ utf8 CrossMark
                  @ '' Invalid input! Please enter a number between 1-17.\<newline>''
                  @ ''\<newline>Press Enter to continue...''"
    and here: "cout (prompt (start ?in)) = cout (start ?in) @ screen"
    and ent: "entered w' = []"
    and cin: "cin w' = get (ignore_line (clear (ignore_line (clear
                 (snd (extract_int (cin (start ?in))))))))"
    and twice: "run_from quiet_env (Suc (Suc 0)) [] (start ?in)
               = (case pass quiet_env [] w' of
                    Again cc'' w'' \<Rightarrow> run_from quiet_env 0 cc'' w''
                  | Leave w'' \<Rightarrow> Some (Returns w'')
                  | Failed f w'' \<Rightarrow> Some (Raises f w''))"
    unfolding e0 by blast
  have cin': "cin w' = \<lparr>buf = ''17'', failbit = False, eofbit = False\<rparr>"
    unfolding cin by (simp add: stream_defs start_def)
  have s2: "extract_int (cin w') = (Some 17, ?s2)"
    unfolding cin' by (simp add: stream_defs)
  let ?w'' = "farewell ((prompt w')\<lparr>cin := ?s2\<rparr>)"
  have p2: "pass quiet_env [] w' = Leave ?w''"
    by (rule pass_17 [OF s2])
  have run2: "run_from quiet_env (Suc (Suc 0)) [] (start ?in) = Some (Returns ?w'')"
    unfolding twice p2 by simp
  have out1: "cout w' = screen @ utf8 CrossMark
                         @ '' Invalid input! Please enter a number between 1-17.\<newline>''
                         @ ''\<newline>Press Enter to continue...''"
    unfolding out here e0 by simp
  have out2: "cout ?w'' = cout w' @ screen @ farewell_text"
    by (simp add: prompt_screen farewell_def prints_eq)
  have ent2: "entered ?w'' = []"
    by (simp add: prompt_screen farewell_def prints_eq ent)
  have d: "\<exists>w'. pass quiet_env [] (start ?in) = Again [] w'
          \<and> entered w' = []
          \<and> cout w' = screen @ utf8 CrossMark
                         @ '' Invalid input! Please enter a number between 1-17.\<newline>''
                         @ ''\<newline>Press Enter to continue...''
          \<and> buf (cin w') = ''17''"
    using p ent out1 cin' by simp
  have e: "\<exists>w''. run_from quiet_env (Suc (Suc 0)) [] (start ?in) = Some (Returns w'')
          \<and> cout w'' = screen @ utf8 CrossMark
                          @ '' Invalid input! Please enter a number between 1-17.\<newline>''
                          @ ''\<newline>Press Enter to continue...'' @ screen @ farewell_text
          \<and> entered w'' = []"
    using run2 out2 ent2 unfolding out1 by simp
  show ?thesis
    using a b c d e by blast
qed

text \<open>
  Claim C7 as the specification words it is about every input that is not numeric. The word
  \<open>3abc\<close> is not numeric, yet \<open>std::cin >> choice\<close> reads the 3 and succeeds: the Singleton
  demo runs, \<open>abc\<close> is taken for the answer to the question that follows, and the loop
  ends without a second prompt.
\<close>

theorem number_before_letters_runs_demo:
  "\<not> numeric ''3abc''
   \<and> fst (extract_int (cin (start ''3abc\<newline>''))) = Some 3
   \<and> is_Leave (pass quiet_env [] (start ''3abc\<newline>''))
   \<and> entered (reached (pass quiet_env [] (start ''3abc\<newline>''))) = [Singleton]"
proof -
  let ?in = "''3abc\<newline>''"
  let ?s = "\<lparr>buf = ''abc\<newline>'', failbit = False, eofbit = False\<rparr>"
  let ?s' = "\<lparr>buf = ''\<newline>'', failbit = False, eofbit = False\<rparr>"
  have a: "extract_int (cin (start ?in)) = (Some 3, ?s)"
    by (simp add: stream_defs start_def)
  have b: "extract_string ?s = (Some ''abc'', ?s')"
    by (simp add: stream_defs)
  have c: "(1::int) \<le> 3" "(3::int) \<le> 15"
    by simp_all
  have e0: "entered (start ?in) = []"
    by (simp add: start_def)
  have "is_Leave (pass quiet_env [] (start ?in))
        \<and> entered (reached (pass quiet_env [] (start ?in))) = [Singleton]"
    using pass_demo_answer [OF a c b, of quiet_env "[]"]
    by (auto simp add: quiet_env_absent menu_order_nth e0)
  moreover have "\<not> numeric ''3abc''"
    by (simp add: numeric_def isdigit_def)
  ultimately show ?thesis
    using a by simp
qed

text \<open>
  At the end of the input there is nothing to discard: every pass fails to read a
  selection and the loop never ends.
\<close>

lemma extract_int_at_end:
  assumes "buf s0 = []"
  shows "\<exists>s. extract_int s0 = (None, s) \<and> buf s = []"
  using assms by (cases "good s0") (simp_all add: extract_int_def sentry_def)

lemma run_at_end_of_input:
  assumes "buf (cin w) = []"
  shows "run_from e n cc w = None"
  using assms
proof (induction n arbitrary: w)
  case 0
  show ?case by simp
next
  case (Suc n)
  obtain s where s: "extract_int (cin w) = (None, s)" and empty: "buf s = []"
    using extract_int_at_end [OF Suc.prems] by blast
  let ?w' = "(prompt w)\<lparr>cout := cout (prompt w) @ utf8 CrossMark
                                 @ '' Invalid input! Please enter a number between 1-17.\<newline>''
                                 @ ''\<newline>Press Enter to continue...'',
                          cin := get (ignore_line (clear (ignore_line (clear s))))\<rparr>"
  have "suffix (buf (cin ?w')) (buf s)"
    using suffix_discard [of "ignore_line (clear s)"] suffix_ignore_line [of "clear s"]
    by (simp add: buf_clear)
  then have "buf (cin ?w') = []"
    by (simp add: empty)
  then have "run_from e n cc ?w' = None"
    by (rule Suc.IH)
  then show ?case
    by (simp add: pass_None [OF s])
qed

section \<open>Claims about the answer and the exit status\<close>

text \<open>
  Claim C4, as amended. After a demo has completed the loop asks whether to continue and
  reads one word: the loop goes on if the word is exactly \<open>y\<close>, \<open>Y\<close>, \<open>yes\<close> or \<open>Yes\<close>, and
  ends for every other word.
\<close>

theorem continue_answer_decides:
  assumes "extract_int (cin w) = (Some c, s)" and "1 \<le> c" and "c \<le> 15"
    and "\<not> is_Failed (pass e cc w)"
    and "extract_string s = (Some r, s')"
  shows "is_Again (pass e cc w) = (r \<in> {''y'', ''Y'', ''yes'', ''Yes''})
     \<and> is_Leave (pass e cc w) = (r \<notin> {''y'', ''Y'', ''yes'', ''Yes''})
     \<and> (r \<notin> {''y'', ''Y'', ''yes'', ''Yes''} \<longrightarrow>
          (\<exists>w'. run_from e (Suc n) cc w = Some (Returns w')))
     \<and> (r \<in> {''y'', ''Y'', ''yes'', ''Yes''} \<longrightarrow>
          (\<exists>w'. run_from e (Suc n) cc w = run_from e n r w'))"
proof -
  obtain w' where
    p: "pass e cc w = (if r \<in> {''y'', ''Y'', ''yes'', ''Yes''} then Again r w' else Leave w')"
    using pass_demo_answer [OF assms(1-3,5), of e cc] assms(4) by auto
  show ?thesis
  proof (cases "r \<in> {''y'', ''Y'', ''yes'', ''Yes''}")
    case True
    then have "pass e cc w = Again r w'"
      using p by simp
    then show ?thesis
      using True by auto
  next
    case False
    then have "pass e cc w = Leave w'"
      using p by simp
    then show ?thesis
      using False by auto
  qed
qed

theorem continue_answer_decides_witness:
  "(\<exists>s s'. extract_int (cin (start ''2 Yes\<newline>'')) = (Some 2, s)
          \<and> extract_string s = (Some ''Yes'', s'))
   \<and> \<not> is_Failed (pass quiet_env [] (start ''2 Yes\<newline>''))
   \<and> is_Again (pass quiet_env [] (start ''2 Yes\<newline>''))
   \<and> \<not> is_Leave (pass quiet_env [] (start ''2 Yes\<newline>''))"
proof -
  let ?s = "\<lparr>buf = '' Yes\<newline>'', failbit = False, eofbit = False\<rparr>"
  let ?s' = "\<lparr>buf = ''\<newline>'', failbit = False, eofbit = False\<rparr>"
  have a: "extract_int (cin (start ''2 Yes\<newline>'')) = (Some 2, ?s)"
    by (simp add: stream_defs start_def)
  have b: "extract_string ?s = (Some ''Yes'', ?s')"
    by (simp add: stream_defs)
  have c: "(1::int) \<le> 2" "(2::int) \<le> 15"
    by simp_all
  have d: "\<not> is_Failed (pass quiet_env [] (start ''2 Yes\<newline>''))"
    using pass_demo_answer [OF a c b, of quiet_env "[]"] by (auto simp add: quiet_env_absent)
  from continue_answer_decides [OF a c d b]
  show ?thesis using a b d by auto
qed

text \<open>
  Claim C4 as the specification words it takes the comparison to ignore case. It does not:
  \<open>YES\<close> is \<open>yes\<close> in another casing, and after the Builder demo it ends the loop.
\<close>

theorem other_casing_of_yes_ends_loop:
  "affirmative_any_case ''YES'' \<and> is_Leave (pass quiet_env [] (start ''1\<newline>YES\<newline>''))"
proof -
  let ?s = "\<lparr>buf = ''\<newline>YES\<newline>'', failbit = False, eofbit = False\<rparr>"
  let ?s' = "\<lparr>buf = ''\<newline>'', failbit = False, eofbit = False\<rparr>"
  have a: "extract_int (cin (start ''1\<newline>YES\<newline>'')) = (Some 1, ?s)"
    by (simp add: stream_defs start_def)
  have b: "extract_string ?s = (Some ''YES'', ?s')"
    by (simp add: stream_defs)
  have c: "(1::int) \<le> 1" "(1::int) \<le> 15"
    by simp_all
  have "is_Leave (pass quiet_env [] (start ''1\<newline>YES\<newline>''))"
    using pass_demo_answer [OF a c b, of quiet_env "[]"] by (auto simp add: quiet_env_absent)
  moreover have "affirmative_any_case ''YES''"
    by code_simp
  ultimately show ?thesis by simp
qed

text \<open>
  Claim C9. When the menu loop is left in the regular way, \<open>main\<close> returns 0. When an
  exception reaches \<open>main\<close>, the handler writes \<open>Fatal error:\<close> with the text of the
  exception to the error stream and \<open>main\<close> returns 1; this holds in particular for the
  exception the factory throws for a name it does not know.
\<close>

theorem main_exit_status:
  "(run e n (start input) = Some (Returns w') \<longrightarrow> main e n input = Some (Exit 0 w'))
   \<and> (run e n (start input) = Some (Raises (Throw x) w') \<longrightarrow>
        main e n input
          = Some (Exit 1 (w'\<lparr>cerr := cerr w' @ utf8 CrossMark @ '' Fatal error: '' @ what x
                                   @ ''\<newline>''\<rparr>)))
   \<and> (createProcessor type = Inl f \<and> run e n (start input) = Some (Raises f w') \<longrightarrow>
        main e n input
          = Some (Exit 1 (w'\<lparr>cerr := cerr w' @ utf8 CrossMark
                                   @ '' Fatal error: Unknown payment processor type: '' @ type
                                   @ ''\<newline>''\<rparr>)))"
  by (auto simp add: main_def createProcessor_def split: if_splits)

lemma failing_env_Observer:
  "snd (absent failing_env Observer)
     = Some (invalid_argument ''Unknown payment processor type: cash'')"
  by (simp add: failing_env_def quiet_env_def)

theorem main_exit_status_witness:
  "(\<exists>w'. run quiet_env 1 (start ''17'') = Some (Returns w')
         \<and> main quiet_env 1 ''17'' = Some (Exit 0 w'))
   \<and> (\<exists>f w'. createProcessor ''cash'' = Inl f
         \<and> run failing_env 1 (start ''4'') = Some (Raises f w')
         \<and> main failing_env 1 ''4''
             = Some (Exit 1 (w'\<lparr>cerr := cerr w' @ utf8 CrossMark
                                   @ '' Fatal error: Unknown payment processor type: cash''
                                   @ ''\<newline>''\<rparr>)))"
proof -
  obtain s where s: "extract_int (cin (start ''17'')) = (Some 17, s)"
    by (simp add: stream_defs start_def)
  have "\<exists>w'. run quiet_env 1 (start ''17'') = Some (Returns w')"
    by (simp add: run_def pass_17 [OF s])
  then obtain w1 where w1: "run quiet_env 1 (start ''17'') = Some (Returns w1)"
    by blast
  have graceful: "main quiet_env 1 ''17'' = Some (Exit 0 w1)"
    using main_exit_status [of quiet_env 1 "''17''" w1] w1 by blast
  let ?f = "Throw (invalid_argument ''Unknown payment processor type: cash'')"
  have f: "createProcessor ''cash'' = Inl ?f"
    by (simp add: createProcessor_def)
  obtain s4 s4' where s4: "extract_int (cin (start ''4'')) = (Some 4, s4)"
    and r4: "extract_string s4 = (None, s4')"
    by (simp add: stream_defs start_def)
  have c: "(1::int) \<le> 4" "(4::int) \<le> 15"
    by simp_all
  obtain w2 where "runPatternDemo failing_env 4 ((prompt (start ''4''))\<lparr>cin := s4\<rparr>)
      = Raises ?f w2"
    using runPatternDemo_frame [OF c, of failing_env "(prompt (start ''4''))\<lparr>cin := s4\<rparr>"]
    by (auto simp add: menu_order_nth failing_env_Observer)
  then have w2: "run failing_env 1 (start ''4'') = Some (Raises ?f w2)"
    by (simp add: run_def pass_demo [OF s4 c])
  have "main failing_env 1 ''4''
             = Some (Exit 1 (w2\<lparr>cerr := cerr w2 @ utf8 CrossMark
                                   @ '' Fatal error: Unknown payment processor type: cash''
                                   @ ''\<newline>''\<rparr>))"
    using main_exit_status [of failing_env 1 "''4''" w2 _ "''cash''" ?f] f w2 by simp
  then show ?thesis
    using graceful w1 w2 f by blast
qed

section \<open>The singleton\<close>

lemma getInstance_once:
  assumes "once e w"
  shows "fst (getInstance e w) = instance_at e"
    and "once e (snd (getInstance e w))"
    and "memory (snd (getInstance e w)) (instance_at e) \<noteq> None"
  using assms by (simp_all add: getInstance_cases once_def)

lemma setter_keeps:
  "once e w \<Longrightarrow> once e (final (setAppName r x w))"
  "once e w \<Longrightarrow> once e (final (setVersion r x w))"
  "once e w \<Longrightarrow> once e (final (setDebugMode r b w))"
  "memory w a \<noteq> None \<Longrightarrow> memory (final (setAppName r x w)) a \<noteq> None"
  "memory w a \<noteq> None \<Longrightarrow> memory (final (setVersion r x w)) a \<noteq> None"
  "memory w a \<noteq> None \<Longrightarrow> memory (final (setDebugMode r b w)) a \<noteq> None"
  by (auto simp add: member_defs once_def split: option.splits)

lemma setter_answer_final: "snd (setter_answer o') = final o'"
  by (cases o') simp_all

lemma perform_keeps:
  "once e w \<Longrightarrow> once e (snd (perform c r w))"
  "memory w a \<noteq> None \<Longrightarrow> memory (snd (perform c r w)) a \<noteq> None"
  by (cases c; simp add: setter_answer_final setter_keeps split: sum.split)+

lemma perform_answers:
  assumes "memory w r \<noteq> None"
  shows "\<not> failed (fst (perform c r w))"
  using assms by (cases c) (auto simp add: member_defs)

text \<open>A mutation through one reference to a live object is read back through it.\<close>

lemma set_then_get:
  assumes "memory w r \<noteq> None"
  shows "getAppName r (final (setAppName r name w)) = Inr name"
    and "getVersion r (final (setVersion r version w)) = Inr version"
    and "isDebugMode r (final (setDebugMode r debug w)) = Inr debug"
  using assms by (auto simp add: member_defs)

subsection \<open>Calls in a row\<close>

lemma getInstances_facts:
  "length (fst (getInstances e n w)) = n
   \<and> set (fst (getInstances e n w)) \<subseteq> {instance_at e}
   \<and> constructed (snd (getInstances e n w))
       = constructed w + (if 0 < n \<and> memory w (instance_at e) = None then 1 else 0)
   \<and> (0 < n \<longrightarrow> memory (snd (getInstances e n w)) (instance_at e) \<noteq> None)"
proof (induction n arbitrary: w)
  case 0
  show ?case by simp
next
  case (Suc n)
  show ?case
    using Suc.IH [of "snd (getInstance e w)"]
    by (cases n) (auto simp add: getInstance_cases case_prod_unfold)
qed

subsection \<open>Threads\<close>

lemma construct_once:
  assumes "once e w" and "memory w (instance_at e) = None"
  shows "once e (construct (instance_at e) w)"
    and "memory (construct (instance_at e) w) (instance_at e) \<noteq> None"
  using assms by (simp_all add: construct_def once_def print_def)

lemma perform_keeps_None:
  assumes "memory w a = None"
  shows "memory (snd (perform c r w)) a = None"
  using assms
  by (cases c) (auto simp add: member_defs split: option.splits)

lemma thread_step_keeps:
  assumes "once e w" and "settled e w t" and "g = None \<or> memory w (instance_at e) = None"
  shows "once e (fst (snd (thread_step e i g w t)))"
    and "settled e (fst (snd (thread_step e i g w t))) (snd (snd (thread_step e i g w t)))"
    and "memory w (instance_at e) \<noteq> None
         \<longrightarrow> memory (fst (snd (thread_step e i g w t))) (instance_at e) \<noteq> None"
    and "fst (thread_step e i g w t) = None
         \<or> memory (fst (snd (thread_step e i g w t))) (instance_at e) = None"
proof -
  show "once e (fst (snd (thread_step e i g w t)))"
    using assms(1) getInstance_once(2) [OF assms(1)] perform_keeps(1) [of e w]
      construct_once(1) [OF assms(1)]
    by (auto simp add: thread_step_def case_prod_unfold split: list.split option.split)
  show "settled e (fst (snd (thread_step e i g w t))) (snd (snd (thread_step e i g w t)))"
  proof (cases "todo t")
    case Nil
    then show ?thesis
      using assms(2) by (simp add: thread_step_def)
  next
    case (Cons c cs)
    show ?thesis
    proof (cases "holding t")
      case None
      then show ?thesis
        using assms(2) Cons getInstance_once [OF assms(1)] construct_once(2) [OF assms(1)]
        by (auto simp add: thread_step_def settled_def returned_def case_prod_unfold)
    next
      case (Some r)
      then have r: "r = instance_at e" and live: "memory w r \<noteq> None"
        using assms(2) by (auto simp add: settled_def)
      show ?thesis
        using assms(2) Cons Some perform_keeps(2) [OF live, of c r] perform_answers [OF live, of c]
        by (auto simp add: thread_step_def settled_def r case_prod_unfold)
    qed
  qed
  show "memory w (instance_at e) \<noteq> None
         \<longrightarrow> memory (fst (snd (thread_step e i g w t))) (instance_at e) \<noteq> None"
    using perform_keeps(2) [of w "instance_at e"] getInstance_once(3) [OF assms(1)]
    by (auto simp add: thread_step_def case_prod_unfold split: list.split option.split)
  show "fst (thread_step e i g w t) = None
         \<or> memory (fst (snd (thread_step e i g w t))) (instance_at e) = None"
    using assms(3) perform_keeps_None [of w "instance_at e"]
    by (auto simp add: thread_step_def case_prod_unfold split: list.split option.split)
qed

lemma settled_mono:
  assumes "settled e w t"
    and "memory w (instance_at e) \<noteq> None \<longrightarrow> memory w' (instance_at e) \<noteq> None"
  shows "settled e w' t"
  using assms by (auto simp add: settled_def)

lemma step_keeps:
  assumes "sound e s"
  shows "sound e (step e s i)"
proof (cases "i < length (threads s)")
  case False
  then show ?thesis using assms by (simp add: step_def)
next
  case True
  let ?t = "threads s ! i"
  let ?r = "thread_step e i (initialising s) (shared s) ?t"
  let ?g' = "fst ?r"
  let ?w' = "fst (snd ?r)"
  let ?t' = "snd (snd ?r)"
  have o: "once e (shared s)"
    and g: "initialising s = None \<or> memory (shared s) (instance_at e) = None"
    and all: "\<And>t. t \<in> set (threads s) \<Longrightarrow> settled e (shared s) t"
    using assms by (simp_all add: sound_def)
  have t: "settled e (shared s) ?t"
    using True all by simp
  note keeps = thread_step_keeps [OF o t g, of i]
  have eq: "step e s i = s\<lparr>shared := ?w', initialising := ?g', threads := (threads s)[i := ?t']\<rparr>"
    using True by (simp add: step_def case_prod_unfold)
  have "settled e ?w' u" if "u \<in> set ((threads s)[i := ?t'])" for u
  proof -
    have "u = ?t' \<or> u \<in> set (threads s)"
      using that set_update_subset_insert [of "threads s" i ?t'] by auto
    then show ?thesis
      using keeps(2) settled_mono [OF all keeps(3)] by blast
  qed
  then show ?thesis
    using keeps(1,4) by (simp add: sound_def eq)
qed

lemma exec_keeps:
  assumes "sound e s"
  shows "sound e (exec e schedule s)"
  using assms unfolding exec_def
  by (induction schedule arbitrary: s) (simp_all add: step_keeps)

lemma boot_sound: "sound e (boot input programs)"
  by (auto simp add: sound_def boot_def start_def once_def settled_def)

text \<open>
  Claim C2. However many times \<open>getInstance\<close> is called, in a row or by several threads in
  any interleaving with their member calls, the constructor of \<open>ConfigurationManager\<close>
  runs at most once and every call returns the same reference, the address of the static;
  a value set through any of the references returned is what a getter called through any
  other of them returns.
\<close>

theorem singleton_single_instance:
  "constructed (shared (exec e schedule (boot input programs))) \<le> 1
   \<and> (\<forall>t \<in> set (threads (exec e schedule (boot input programs))).
        (\<forall>r \<in> set (got t). r = instance_at e)
        \<and> (\<forall>a \<in> set (seen t). \<not> failed a))
   \<and> (\<forall>t \<in> set (threads (exec e schedule (boot input programs))).
       \<forall>t' \<in> set (threads (exec e schedule (boot input programs))).
       \<forall>r \<in> set (got t). \<forall>r' \<in> set (got t').
         getAppName r' (final (setAppName r name (shared (exec e schedule (boot input programs)))))
           = Inr name
         \<and> getVersion r' (final (setVersion r version (shared (exec e schedule (boot input programs)))))
           = Inr version
         \<and> isDebugMode r' (final (setDebugMode r debug (shared (exec e schedule (boot input programs)))))
           = Inr debug)
   \<and> length (fst (getInstances e n w)) = n
   \<and> (\<forall>r \<in> set (fst (getInstances e n w)). r = instance_at e)
   \<and> constructed (snd (getInstances e n w)) \<le> Suc (constructed w)
   \<and> (\<forall>r \<in> set (fst (getInstances e n w)). \<forall>r' \<in> set (fst (getInstances e n w)).
         getAppName r' (final (setAppName r name (snd (getInstances e n w)))) = Inr name
         \<and> getVersion r' (final (setVersion r version (snd (getInstances e n w)))) = Inr version
         \<and> isDebugMode r' (final (setDebugMode r debug (snd (getInstances e n w)))) = Inr debug)"
proof -
  let ?s = "exec e schedule (boot input programs)"
  have sound: "sound e ?s"
    by (rule exec_keeps [OF boot_sound])
  then have o: "once e (shared ?s)"
    and st: "\<And>t. t \<in> set (threads ?s) \<Longrightarrow> settled e (shared ?s) t"
    by (simp_all add: sound_def)
  have one: "constructed (shared ?s) \<le> 1"
    using o by (simp add: once_def split: if_splits)
  have refs: "(\<forall>r \<in> set (got t). r = instance_at e)
        \<and> (\<forall>a \<in> set (seen t). \<not> failed a)"
    if "t \<in> set (threads ?s)" for t
    using st [OF that] by (auto simp add: settled_def list_all_iff)
  have live: "memory (shared ?s) (instance_at e) \<noteq> None"
    if "t \<in> set (threads ?s)" and "r \<in> set (got t)" for t r
    using st [OF that(1)] that(2) by (auto simp add: settled_def)
  have visible: "getAppName r' (final (setAppName r name (shared ?s))) = Inr name
         \<and> getVersion r' (final (setVersion r version (shared ?s))) = Inr version
         \<and> isDebugMode r' (final (setDebugMode r debug (shared ?s))) = Inr debug"
    if "t \<in> set (threads ?s)" and "t' \<in> set (threads ?s)" and "r \<in> set (got t)"
      and "r' \<in> set (got t')" for t t' r r'
  proof -
    have "r = instance_at e" and "r' = instance_at e"
      using refs that by blast+
    then show ?thesis
      using set_then_get [OF live [OF that(1,3)]] by simp
  qed
  note row = getInstances_facts [of e n w]
  have row_refs: "r = instance_at e" if "r \<in> set (fst (getInstances e n w))" for r
    using row that by blast
  have row_one: "constructed (snd (getInstances e n w)) \<le> Suc (constructed w)"
    using row by simp
  have row_visible:
    "getAppName r' (final (setAppName r name (snd (getInstances e n w)))) = Inr name
     \<and> getVersion r' (final (setVersion r version (snd (getInstances e n w)))) = Inr version
     \<and> isDebugMode r' (final (setDebugMode r debug (snd (getInstances e n w)))) = Inr debug"
    if "r \<in> set (fst (getInstances e n w))" and "r' \<in> set (fst (getInstances e n w))" for r r'
  proof -
    have "0 < n"
      using row that(1) by (cases n) auto
    then have "memory (snd (getInstances e n w)) (instance_at e) \<noteq> None"
      using row by blast
    then show ?thesis
      using set_then_get row_refs [OF that(1)] row_refs [OF that(2)] by simp
  qed
  show ?thesis
    using one refs visible row row_refs row_one row_visible by (intro conjI ballI) blast+
qed


theorem singleton_single_instance_witness:
  "threads (exec quiet_env [0, 1, 0, 1, 0, 1, 1] (boot [] [[SetAppName ''Shop''], [GetAppName]]))
     = [\<lparr>todo = [], holding = None, got = [4096], seen = [Done]\<rparr>,
        \<lparr>todo = [], holding = None, got = [4096], seen = [Text ''Shop'']\<rparr>]
   \<and> constructed (shared (exec quiet_env [0, 1, 0, 1, 0, 1, 1]
                         (boot [] [[SetAppName ''Shop''], [GetAppName]]))) \<le> 1
   \<and> getVersion 4096
        (final (setVersion 4096 ''2.0.0''
                  (shared (exec quiet_env [0, 1, 0, 1, 0, 1, 1]
                             (boot [] [[SetAppName ''Shop''], [GetAppName]])))))
       = Inr ''2.0.0''
   \<and> fst (getInstances quiet_env 2 (start [])) = [4096, 4096]
   \<and> isDebugMode 4096 (final (setDebugMode 4096 True (snd (getInstances quiet_env 2 (start [])))))
       = Inr True"
proof -
  let ?s = "exec quiet_env [0, 1, 0, 1, 0, 1, 1] (boot [] [[SetAppName ''Shop''], [GetAppName]])"
  let ?t0 = "\<lparr>todo = [], holding = None, got = [4096], seen = [Done]\<rparr>"
  let ?t1 = "\<lparr>todo = [], holding = None, got = [4096], seen = [Text ''Shop'']\<rparr>"
  have run: "threads ?s = [?t0, ?t1]"
    by (simp add: exec_def step_def thread_step_def returned_def boot_def start_def
        getInstance_cases construct_def print_def quiet_env_def member_defs)
  have row: "fst (getInstances quiet_env 2 (start [])) = [4096, 4096]"
    by (simp add: numeral_2_eq_2 getInstance_cases quiet_env_def start_def case_prod_unfold)
  note all = singleton_single_instance [of quiet_env "[0, 1, 0, 1, 0, 1, 1]" "[]"
      "[[SetAppName ''Shop''], [GetAppName]]" "''Shop''" "''2.0.0''" True 2 "start []"]
  have in0: "?t0 \<in> set (threads ?s)" and in1: "?t1 \<in> set (threads ?s)"
    unfolding run by simp_all
  have r0: "4096 \<in> set (got ?t0)" and r1: "4096 \<in> set (got ?t1)"
    by simp_all
  have a: "constructed (shared ?s) \<le> 1"
    using all by blast
  have b: "getVersion 4096 (final (setVersion 4096 ''2.0.0'' (shared ?s))) = Inr ''2.0.0''"
    using all in0 in1 r0 r1 by blast
  have m: "4096 \<in> set (fst (getInstances quiet_env 2 (start [])))"
    unfolding row by simp
  have c: "isDebugMode 4096
             (final (setDebugMode 4096 True (snd (getInstances quiet_env 2 (start [])))))
           = Inr True"
    using all m by blast
  show ?thesis
    using run row a b c by blast
qed

end
